theory Spec2Isabelle
  imports Main
begin

section \<open>JavaScript values\<close>

text \<open>
  A value of TypeScript type \<open>T | null | undefined\<close>. The source tests such values with
  \<open>x != null\<close> (false for both \<open>null\<close> and \<open>undefined\<close>), with \<open>a ?? b\<close> and
  with strict (in)equality \<open>!==\<close>, which tells \<open>null\<close> from \<open>undefined\<close>.
  Strings and control positions are primitives: \<open>!==\<close> compares them by value, which is
  HOL's equality. Objects (props, handler maps, contexts, elements) are compared by
  reference, by \<open>!==\<close> and by the dependency lists of \<open>useEffect\<close> and \<open>useMemo\<close>
  alike. An object is modelled either by a value of a type variable that stands for the
  references (\<open>'p\<close> for props, \<open>'h\<close> for handler maps, \<open>'e\<close> for Leaflet instances),
  or by a record with a field for the identity of the object (\<open>ctx_ref\<close>, \<open>el_ref\<close>,
  \<open>obj_ref\<close>, \<open>props_ref\<close>); these objects are frozen or never written to, so two
  such records are equal exactly when they are the same object.
\<close>

datatype 'a nullable = Undefined | Null | Def 'a

text \<open>\<open>x != null\<close>\<close>

fun not_nullish :: "'a nullable \<Rightarrow> bool" where
  "not_nullish (Def _) = True"
| "not_nullish _ = False"

text \<open>\<open>a ?? b\<close>\<close>

fun coalesce :: "'a nullable \<Rightarrow> 'a nullable \<Rightarrow> 'a nullable" where
  "coalesce (Def a) b = Def a"
| "coalesce _ b = b"

text \<open>Truthiness of a \<open>string | null | undefined\<close>: the empty string is falsy.\<close>

fun truthy :: "string nullable \<Rightarrow> bool" where
  "truthy (Def s) = (s \<noteq> [])"
| "truthy _ = False"

section \<open>The context carrier (context.ts)\<close>

text \<open>
  \<open>LeafletContextInterface\<close>. The map, the containers and the controls are Leaflet objects;
  the context holds references to them (natural numbers as addresses). A context is a
  frozen object that React compares by reference: \<open>ctx_ref\<close> is the identity of the
  object, so that two contexts are equal exactly when they are the same object.
\<close>

record leaflet_context =
  ctx_ref :: nat
  version :: nat
  ctx_map :: nat
  layerContainer :: "nat option"
  layersControl :: "nat option"
  overlayContainer :: "nat option"
  ctx_pane :: "string nullable"

definition CONTEXT_VERSION :: nat where
  "CONTEXT_VERSION = 1"

definition createLeafletContext :: "nat \<Rightarrow> nat \<Rightarrow> leaflet_context" where
  "createLeafletContext fresh m =
     \<lparr>ctx_ref = fresh, version = CONTEXT_VERSION, ctx_map = m, layerContainer = None, layersControl = None,
      overlayContainer = None, ctx_pane = Undefined\<rparr>"

datatype usage_error = NoContextProvided | ReservedPaneName string | PaneExists string
  | BackendTypeError

text \<open>\<open>useLeafletContext\<close>: the value of the React context, or a thrown error.\<close>

definition useLeafletContext :: "leaflet_context option \<Rightarrow> usage_error + leaflet_context" where
  "useLeafletContext provided =
     (case provided of None \<Rightarrow> Inl NoContextProvided | Some c \<Rightarrow> Inr c)"

section \<open>Ambient pane resolution (pane.ts)\<close>

text \<open>
  Props that extend \<open>LayerOptions\<close>: the \<open>pane\<close> key, and every other key in the
  record's extension. \<open>obj_ref\<close> is the identity of the props object: the spread
  \<open>{ ...props, pane }\<close> allocates a new object, whose reference the caller of the model
  supplies as \<open>fresh\<close>.
\<close>

record layer_options =
  obj_ref :: nat
  pane :: "string nullable"

definition withPane ::
  "nat \<Rightarrow> 'a layer_options_scheme \<Rightarrow> leaflet_context \<Rightarrow> 'a layer_options_scheme" where
  "withPane fresh props context =
     (let p = coalesce (pane props) (ctx_pane context)
      in if truthy p then props\<lparr>obj_ref := fresh, pane := p\<rparr> else props)"

section \<open>CSS class synchronisation (updateClassName)\<close>

text \<open>\<open>String.prototype.split\<close> with a one-character separator.\<close>

fun js_split :: "char \<Rightarrow> string \<Rightarrow> string list" where
  "js_split c [] = [[]]"
| "js_split c (x # xs) =
     (if x = c then [] # js_split c xs
      else (case js_split c xs of w # ws \<Rightarrow> (x # w) # ws | [] \<Rightarrow> [[x]]))"

definition splitClassName :: "string \<Rightarrow> string list" where
  "splitClassName className = filter (\<lambda>t. t \<noteq> []) (js_split (CHR '' '') className)"

text \<open>The calls into Leaflet's \<open>DomUtil\<close>, in the order they are made.\<close>

datatype 'el dom_call = AddClass 'el string | RemoveClass 'el string
  | SetStyle 'el string string | RemoveNode 'el

definition addClassName :: "'el \<Rightarrow> string \<Rightarrow> 'el dom_call list" where
  "addClassName element className = map (AddClass element) (splitClassName className)"

definition removeClassName :: "'el \<Rightarrow> string \<Rightarrow> 'el dom_call list" where
  "removeClassName element className = map (RemoveClass element) (splitClassName className)"

definition updateClassName ::
  "'el nullable \<Rightarrow> string nullable \<Rightarrow> string nullable \<Rightarrow> 'el dom_call list" where
  "updateClassName element prevClassName nextClassName =
     (case element of
        Def el \<Rightarrow>
          if nextClassName \<noteq> prevClassName then
            (case prevClassName of
               Def prev \<Rightarrow> if length prev > 0 then removeClassName el prev else []
             | _ \<Rightarrow> [])
            @ (case nextClassName of
                 Def nxt \<Rightarrow> if length nxt > 0 then addClassName el nxt else []
               | _ \<Rightarrow> [])
          else []
      | _ \<Rightarrow> [])"

text \<open>
  Modelled from the spec: Leaflet's \<open>DomUtil.addClass\<close> and \<open>DomUtil.removeClass\<close> (the
  library is not part of the repository), on the class list of the one element \<open>el\<close>:
  adding a class that is present and removing one that is absent change nothing.
\<close>

fun apply_dom_call :: "'el \<Rightarrow> 'el dom_call \<Rightarrow> string list \<Rightarrow> string list" where
  "apply_dom_call el (AddClass e c) cs = (if e = el \<and> c \<notin> set cs then cs @ [c] else cs)"
| "apply_dom_call el (RemoveClass e c) cs = (if e = el then removeAll c cs else cs)"
| "apply_dom_call el _ cs = cs"

definition apply_dom_calls :: "'el \<Rightarrow> 'el dom_call list \<Rightarrow> string list \<Rightarrow> string list" where
  "apply_dom_calls el calls cs = foldl (\<lambda>s c. apply_dom_call el c s) cs calls"

section \<open>React hooks\<close>

text \<open>
  A function component is a state machine. Each render runs the body of the hook (the
  render phase: \<open>useRef\<close>, \<open>useState\<close> and \<open>useMemo\<close> read the component's slots and
  fill them on the first render); the commit that follows runs the effects. \<open>useEffect\<close>
  runs its effect after the first render and after every render in which one of its
  dependencies is not the same value as at the effect's last run; before it runs the
  effect again, and when the component unmounts, it runs the cleanup function the last run
  returned. A slot that holds \<open>None\<close> has not been filled yet. The calls a hook makes
  into Leaflet and into the functions it was given are collected in a trace, in the order
  they are made.
\<close>

definition deps_changed :: "'d option \<Rightarrow> 'd \<Rightarrow> bool" where
  "deps_changed prev deps = (case prev of None \<Rightarrow> True | Some d \<Rightarrow> d \<noteq> deps)"

section \<open>Element handle and element lifecycle core (createElementHook)\<close>

text \<open>
  \<open>LeafletElement\<close>: a frozen object, compared by reference (\<open>el_ref\<close> is its identity).
\<close>

record 'e leaflet_element =
  el_ref :: nat
  el_instance :: 'e
  el_context :: leaflet_context
  el_container :: "nat nullable"

definition createElementObject ::
  "nat \<Rightarrow> 'e \<Rightarrow> leaflet_context \<Rightarrow> nat nullable \<Rightarrow> 'e leaflet_element" where
  "createElementObject fresh inst context container =
     \<lparr>el_ref = fresh, el_instance = inst, el_context = context, el_container = container\<rparr>"

text \<open>
  The two functions given to \<open>createElementHook\<close> are the caller's: the trace records
  each call of them with its arguments. \<open>createElement\<close> returns the element, so the
  model takes it as a function; \<open>updateElement\<close> returns nothing, so the model takes only
  whether it was supplied. An element is an object, so \<open>!elementRef.current\<close> holds
  exactly while the ref is still \<open>undefined\<close>, which is \<open>None\<close> here.
\<close>

datatype ('e, 'p) element_call = CreateElement 'p leaflet_context | UpdateElement 'e 'p 'p

record ('e, 'p) element_state =
  elementRef :: "'e leaflet_element option"
  propsRef :: "'p option"
  updateElementProps_deps :: "('e \<times> 'p \<times> leaflet_context) option"

definition element_init :: "('e, 'p) element_state" where
  "element_init = \<lparr>elementRef = None, propsRef = None, updateElementProps_deps = None\<rparr>"

text \<open>The body of \<open>useImmutableLeafletElement\<close>.\<close>

definition useImmutableLeafletElement ::
  "('p \<Rightarrow> leaflet_context \<Rightarrow> 'e leaflet_element) \<Rightarrow> ('e, 'p) element_state \<Rightarrow> 'p \<Rightarrow>
   leaflet_context \<Rightarrow> ('e, 'p) element_state \<times> ('e, 'p) element_call list" where
  "useImmutableLeafletElement createElement st props context =
     (case elementRef st of
        None \<Rightarrow> (st\<lparr>elementRef := Some (createElement props context)\<rparr>,
                 [CreateElement props context])
      | Some _ \<Rightarrow> (st, []))"

text \<open>The body of \<open>useMutableLeafletElement\<close>, up to the registration of its effect.\<close>

definition useMutableLeafletElement ::
  "('p \<Rightarrow> leaflet_context \<Rightarrow> 'e leaflet_element) \<Rightarrow> ('e, 'p) element_state \<Rightarrow> 'p \<Rightarrow>
   leaflet_context \<Rightarrow> ('e, 'p) element_state \<times> ('e, 'p) element_call list" where
  "useMutableLeafletElement createElement st props context =
     (let (st1, calls) =
        (case elementRef st of
           None \<Rightarrow> (st\<lparr>elementRef := Some (createElement props context)\<rparr>,
                    [CreateElement props context])
         | Some _ \<Rightarrow> (st, []));
          st2 = (case propsRef st1 of None \<Rightarrow> st1\<lparr>propsRef := Some props\<rparr> | Some _ \<Rightarrow> st1)
      in (st2, calls))"

text \<open>The effect \<open>updateElementProps\<close>, with the \<open>instance\<close> and \<open>props\<close> of its render.\<close>

definition updateElementProps ::
  "('e, 'p) element_state \<Rightarrow> 'e \<Rightarrow> 'p \<Rightarrow> ('e, 'p) element_state \<times> ('e, 'p) element_call list" where
  "updateElementProps st inst props =
     (case propsRef st of
        Some prev \<Rightarrow>
          if prev \<noteq> props
          then (st\<lparr>propsRef := Some props\<rparr>, [UpdateElement inst props prev])
          else (st, [])
      | None \<Rightarrow> (st, []))"

text \<open>The commit of \<open>useMutableLeafletElement\<close>: its effect has the dependencies
  \<open>[instance, props, context]\<close> and no cleanup.\<close>

definition useMutableLeafletElement_commit ::
  "('e, 'p) element_state \<Rightarrow> 'p \<Rightarrow> leaflet_context \<Rightarrow>
   ('e, 'p) element_state \<times> ('e, 'p) element_call list" where
  "useMutableLeafletElement_commit st props context =
     (case elementRef st of
        None \<Rightarrow> (st, [])
      | Some el \<Rightarrow>
          let deps = (el_instance el, props, context) in
          if deps_changed (updateElementProps_deps st) deps
          then (let (st1, calls) = updateElementProps st (el_instance el) props
                in (st1\<lparr>updateElementProps_deps := Some deps\<rparr>, calls))
          else (st, []))"

text \<open>
  \<open>createElementHook\<close> returns one of the two hooks, by whether \<open>updateElement\<close> was
  supplied. The hook it returns is given here as its render phase and its commit.
\<close>

definition createElementHook_render ::
  "('p \<Rightarrow> leaflet_context \<Rightarrow> 'e leaflet_element) \<Rightarrow> bool \<Rightarrow> ('e, 'p) element_state \<Rightarrow> 'p \<Rightarrow>
   leaflet_context \<Rightarrow> ('e, 'p) element_state \<times> ('e, 'p) element_call list" where
  "createElementHook_render createElement has_updateElement =
     (if \<not> has_updateElement then useImmutableLeafletElement createElement
      else useMutableLeafletElement createElement)"

definition createElementHook_commit ::
  "bool \<Rightarrow> ('e, 'p) element_state \<Rightarrow> 'p \<Rightarrow> leaflet_context \<Rightarrow>
   ('e, 'p) element_state \<times> ('e, 'p) element_call list" where
  "createElementHook_commit has_updateElement st props context =
     (if \<not> has_updateElement then (st, [])
      else useMutableLeafletElement_commit st props context)"

text \<open>One activation of a component that uses only the element hook: a render and its
  commit. The hook returns \<open>elementRef\<close>, the first component of the result.\<close>

definition element_activate ::
  "('p \<Rightarrow> leaflet_context \<Rightarrow> 'e leaflet_element) \<Rightarrow> bool \<Rightarrow> ('e, 'p) element_state \<Rightarrow>
   'p \<times> leaflet_context \<Rightarrow> ('e, 'p) element_state \<times> ('e, 'p) element_call list" where
  "element_activate createElement has_updateElement st pc =
     (let (st1, t1) = createElementHook_render createElement has_updateElement st (fst pc) (snd pc);
          (st2, t2) = createElementHook_commit has_updateElement st1 (fst pc) (snd pc)
      in (st2, t1 @ t2))"

fun element_run ::
  "('p \<Rightarrow> leaflet_context \<Rightarrow> 'e leaflet_element) \<Rightarrow> bool \<Rightarrow> ('e, 'p) element_state \<Rightarrow>
   ('p \<times> leaflet_context) list \<Rightarrow> ('e, 'p) element_state \<times> ('e, 'p) element_call list" where
  "element_run createElement has_updateElement st [] = (st, [])"
| "element_run createElement has_updateElement st (pc # pcs) =
     (let (st1, t1) = element_activate createElement has_updateElement st pc;
          (st2, t2) = element_run createElement has_updateElement st1 pcs
      in (st2, t1 @ t2))"

fun is_create :: "('e, 'p) element_call \<Rightarrow> bool" where
  "is_create (CreateElement _ _) = True"
| "is_create _ = False"

section \<open>Control attach/detach and position (createControlHook)\<close>

text \<open>
  Props that extend \<open>ControlOptions\<close>: the \<open>position\<close> key (a string), and every other
  key in the record's extension. \<open>props_ref\<close> is the identity of the props object.
\<close>

record control_options =
  props_ref :: nat
  position :: "string nullable"

datatype ('e, 'p) control_call =
    ElementCall "('e, 'p) element_call"
  | AddTo 'e nat
  | Remove 'e
  | SetPosition 'e string

text \<open>
  The slots of \<open>useLeafletControl\<close>: those of the element hook it was given, the ref
  \<open>positionRef\<close>, and its two effects. \<open>addControl\<close> returns the cleanup \<open>removeControl\<close>,
  which holds the \<open>instance\<close> of the render that ran the effect.
\<close>

record ('e, 'p) control_state =
  element_slots :: "('e, 'p) element_state"
  positionRef :: "string nullable option"
  addControl_deps :: "(nat \<times> 'e) option"
  removeControl :: "'e option"
  updateControl_deps :: "('e \<times> string nullable) option"

definition control_init :: "('e, 'p) control_state" where
  "control_init =
     \<lparr>element_slots = element_init, positionRef = None, addControl_deps = None,
      removeControl = None, updateControl_deps = None\<rparr>"

text \<open>The effect \<open>updateControl\<close>, with the \<open>instance\<close> and \<open>position\<close> of its render.\<close>

definition updateControl ::
  "('e, 'p) control_state \<Rightarrow> 'e \<Rightarrow> string nullable \<Rightarrow>
   ('e, 'p) control_state \<times> ('e, 'p) control_call list" where
  "updateControl st inst pos =
     (case pos of
        Def v \<Rightarrow>
          if Some pos \<noteq> positionRef st
          then (st\<lparr>positionRef := Some pos\<rparr>, [SetPosition inst v])
          else (st, [])
      | _ \<Rightarrow> (st, []))"

text \<open>The effect \<open>addControl\<close> and its cleanup \<open>removeControl\<close>.\<close>

definition addControl ::
  "('e, 'p) control_state \<Rightarrow> 'e \<Rightarrow> nat \<Rightarrow> ('e, 'p) control_state \<times> ('e, 'p) control_call list" where
  "addControl st inst m = (st\<lparr>removeControl := Some inst\<rparr>, [AddTo inst m])"

definition run_removeControl ::
  "('e, 'p) control_state \<Rightarrow> ('e, 'p) control_state \<times> ('e, 'p) control_call list" where
  "run_removeControl st =
     (case removeControl st of
        None \<Rightarrow> (st, [])
      | Some i \<Rightarrow> (st\<lparr>removeControl := None\<rparr>, [Remove i]))"

text \<open>
  The render phase of \<open>useLeafletControl\<close>: it reads the context (and throws without
  one), runs the element hook, takes the \<open>instance\<close> out of the element and fills
  \<open>positionRef\<close> on the first render. The result holds the \<open>instance\<close> and the context
  that the effects of this render close over.
\<close>

definition useLeafletControl_render ::
  "('a control_options_scheme \<Rightarrow> leaflet_context \<Rightarrow> 'e leaflet_element) \<Rightarrow> bool \<Rightarrow>
   ('e, 'a control_options_scheme) control_state \<Rightarrow>
   'a control_options_scheme \<Rightarrow> leaflet_context option \<Rightarrow>
   usage_error + ('e, 'a control_options_scheme) control_state \<times> 'e \<times> leaflet_context \<times>
     ('e, 'a control_options_scheme) element_call list" where
  "useLeafletControl_render createElement has_updateElement st props provided =
     (case useLeafletContext provided of
        Inl err \<Rightarrow> Inl err
      | Inr context \<Rightarrow>
          let (es, t) = createElementHook_render createElement has_updateElement
                          (element_slots st) props context
          in (case elementRef es of
                None \<Rightarrow> Inl BackendTypeError
              | Some el \<Rightarrow>
                  Inr (st\<lparr>element_slots := es,
                          positionRef :=
                            (case positionRef st of
                               None \<Rightarrow> Some (position props)
                             | Some r \<Rightarrow> Some r)\<rparr>,
                       el_instance el, context, t)))"

text \<open>
  The commit of \<open>useLeafletControl\<close>: first the cleanups of the effects whose
  dependencies changed (only \<open>addControl\<close> has one), then the effects, in the order of
  the hooks: the element hook's, \<open>addControl\<close> with the dependencies
  \<open>[context.map, instance]\<close>, \<open>updateControl\<close> with \<open>[instance, position]\<close>.
\<close>

definition useLeafletControl_commit ::
  "bool \<Rightarrow> ('e, 'a control_options_scheme) control_state \<Rightarrow> 'e \<Rightarrow>
   'a control_options_scheme \<Rightarrow> leaflet_context \<Rightarrow>
   ('e, 'a control_options_scheme) control_state \<times>
     ('e, 'a control_options_scheme) control_call list" where
  "useLeafletControl_commit has_updateElement st inst props context =
     (let add_changed = deps_changed (addControl_deps st) (ctx_map context, inst);
          upd_changed = deps_changed (updateControl_deps st) (inst, position props);
          (st1, t1) = (if add_changed then run_removeControl st else (st, []));
          (es, t2) = createElementHook_commit has_updateElement (element_slots st1) props context;
          st2 = st1\<lparr>element_slots := es\<rparr>;
          (st3, t3) =
            (if add_changed
             then (let (s, t) = addControl st2 inst (ctx_map context)
                   in (s\<lparr>addControl_deps := Some (ctx_map context, inst)\<rparr>, t))
             else (st2, []));
          (st4, t4) =
            (if upd_changed
             then (let (s, t) = updateControl st3 inst (position props)
                   in (s\<lparr>updateControl_deps := Some (inst, position props)\<rparr>, t))
             else (st3, []))
      in (st4, t1 @ map ElementCall t2 @ t3 @ t4))"

text \<open>One render of \<open>useLeafletControl\<close> and its commit.\<close>

definition useLeafletControl ::
  "('a control_options_scheme \<Rightarrow> leaflet_context \<Rightarrow> 'e leaflet_element) \<Rightarrow> bool \<Rightarrow>
   ('e, 'a control_options_scheme) control_state \<Rightarrow>
   'a control_options_scheme \<times> leaflet_context option \<Rightarrow>
   usage_error + ('e, 'a control_options_scheme) control_state \<times>
     ('e, 'a control_options_scheme) control_call list" where
  "useLeafletControl createElement has_updateElement st pc =
     (case useLeafletControl_render createElement has_updateElement st (fst pc) (snd pc) of
        Inl err \<Rightarrow> Inl err
      | Inr (st1, inst, context, t1) \<Rightarrow>
          (let (st2, t2) = useLeafletControl_commit has_updateElement st1 inst (fst pc) context
           in Inr (st2, map ElementCall t1 @ t2)))"

fun control_run ::
  "('a control_options_scheme \<Rightarrow> leaflet_context \<Rightarrow> 'e leaflet_element) \<Rightarrow> bool \<Rightarrow>
   ('e, 'a control_options_scheme) control_state \<Rightarrow>
   ('a control_options_scheme \<times> leaflet_context option) list \<Rightarrow>
   usage_error + ('e, 'a control_options_scheme) control_state \<times>
     ('e, 'a control_options_scheme) control_call list" where
  "control_run createElement has_updateElement st [] = Inr (st, [])"
| "control_run createElement has_updateElement st (pc # pcs) =
     (case useLeafletControl createElement has_updateElement st pc of
        Inl err \<Rightarrow> Inl err
      | Inr (st1, t1) \<Rightarrow>
          (case control_run createElement has_updateElement st1 pcs of
             Inl err \<Rightarrow> Inl err
           | Inr (st2, t2) \<Rightarrow> Inr (st2, t1 @ t2)))"

text \<open>Unmounting runs the cleanup of \<open>addControl\<close>.\<close>

definition control_unmount ::
  "('e, 'p) control_state \<Rightarrow> ('e, 'p) control_state \<times> ('e, 'p) control_call list" where
  "control_unmount st = run_removeControl st"

fun is_setPosition :: "('e, 'p) control_call \<Rightarrow> bool" where
  "is_setPosition (SetPosition _ _) = True"
| "is_setPosition _ = False"

fun is_control_create :: "('e, 'p) control_call \<Rightarrow> bool" where
  "is_control_create (ElementCall c) = is_create c"
| "is_control_create _ = False"

section \<open>Event-handler attach/detach (events.ts)\<close>

text \<open>
  A handler map (\<open>LeafletEventHandlerFnMap\<close>) is an object: \<open>'h\<close> is the type of the
  references to such objects.
\<close>

datatype ('e, 'h) evented_call = On 'e 'h | Off 'e 'h

text \<open>
  The slots of \<open>useEventHandlers\<close>: the ref \<open>eventHandlersRef\<close> (\<open>useRef()\<close> starts
  it as \<open>undefined\<close>) and the effect. The cleanup \<open>removeEventHandlers\<close> holds the
  \<open>element\<close> of the render that ran the effect, and reads the ref when it runs.
\<close>

record ('e, 'h) handlers_state =
  eventHandlersRef :: "'h nullable"
  addEventHandlers_deps :: "('e leaflet_element \<times> 'h nullable) option"
  removeEventHandlers :: "'e leaflet_element option"

definition handlers_init :: "('e, 'h) handlers_state" where
  "handlers_init =
     \<lparr>eventHandlersRef = Undefined, addEventHandlers_deps = None, removeEventHandlers = None\<rparr>"

definition addEventHandlers ::
  "('e, 'h) handlers_state \<Rightarrow> 'e leaflet_element \<Rightarrow> 'h nullable \<Rightarrow>
   ('e, 'h) handlers_state \<times> ('e, 'h) evented_call list" where
  "addEventHandlers st element eventHandlers =
     (st\<lparr>eventHandlersRef := eventHandlers, removeEventHandlers := Some element\<rparr>,
      (case eventHandlers of Def h \<Rightarrow> [On (el_instance element) h] | _ \<Rightarrow> []))"

definition run_removeEventHandlers ::
  "('e, 'h) handlers_state \<Rightarrow> ('e, 'h) handlers_state \<times> ('e, 'h) evented_call list" where
  "run_removeEventHandlers st =
     (case removeEventHandlers st of
        None \<Rightarrow> (st, [])
      | Some element \<Rightarrow>
          (st\<lparr>eventHandlersRef := Null, removeEventHandlers := None\<rparr>,
           (case eventHandlersRef st of Def h \<Rightarrow> [Off (el_instance element) h] | _ \<Rightarrow> [])))"

text \<open>One render of \<open>useEventHandlers\<close> and its commit; the dependencies of the effect
  are \<open>[element, eventHandlers]\<close>.\<close>

definition useEventHandlers ::
  "('e, 'h) handlers_state \<Rightarrow> 'e leaflet_element \<times> 'h nullable \<Rightarrow>
   ('e, 'h) handlers_state \<times> ('e, 'h) evented_call list" where
  "useEventHandlers st eh =
     (if deps_changed (addEventHandlers_deps st) eh
      then (let (st1, t1) = run_removeEventHandlers st;
                (st2, t2) = addEventHandlers st1 (fst eh) (snd eh)
            in (st2\<lparr>addEventHandlers_deps := Some eh\<rparr>, t1 @ t2))
      else (st, []))"

fun handlers_run ::
  "('e, 'h) handlers_state \<Rightarrow> ('e leaflet_element \<times> 'h nullable) list \<Rightarrow>
   ('e, 'h) handlers_state \<times> ('e, 'h) evented_call list" where
  "handlers_run st [] = (st, [])"
| "handlers_run st (eh # ehs) =
     (let (st1, t1) = useEventHandlers st eh;
          (st2, t2) = handlers_run st1 ehs
      in (st2, t1 @ t2))"

definition handlers_unmount ::
  "('e, 'h) handlers_state \<Rightarrow> ('e, 'h) handlers_state \<times> ('e, 'h) evented_call list" where
  "handlers_unmount st = run_removeEventHandlers st"

text \<open>
  Modelled from the spec: Leaflet's \<open>on\<close> and \<open>off\<close> (the library is not part of the
  repository). The handler maps installed on the instances, one entry for each
  registration: \<open>on\<close> adds an entry, \<open>off\<close> takes one entry of that instance and map away.
\<close>

fun apply_evented_call :: "('e, 'h) evented_call \<Rightarrow> ('e \<times> 'h) list \<Rightarrow> ('e \<times> 'h) list" where
  "apply_evented_call (On i h) act = (i, h) # act"
| "apply_evented_call (Off i h) act = remove1 (i, h) act"

definition installed :: "('e, 'h) evented_call list \<Rightarrow> ('e \<times> 'h) list" where
  "installed calls = foldl (\<lambda>act c. apply_evented_call c act) [] calls"

text \<open>At most one registration is installed before the calls and after each of them.\<close>

fun at_most_one_active :: "('e \<times> 'h) list \<Rightarrow> ('e, 'h) evented_call list \<Rightarrow> bool" where
  "at_most_one_active act [] = (length act \<le> 1)"
| "at_most_one_active act (c # cs) =
     (length act \<le> 1 \<and> at_most_one_active (apply_evented_call c act) cs)"

section \<open>Attribution sync (attribution.ts)\<close>

text \<open>
  The Leaflet map as \<open>useAttribution\<close> reads it: its identity, and its
  \<open>attributionControl\<close> if it has one.
\<close>

record leaflet_map =
  map_ref :: nat
  attributionControl :: "nat nullable"

datatype attribution_call = AddAttribution nat string | RemoveAttribution nat string

record attribution_state =
  attributionRef :: "string nullable option"
  updateAttribution_deps :: "(nat \<times> string nullable) option"

definition attribution_init :: attribution_state where
  "attribution_init = \<lparr>attributionRef = None, updateAttribution_deps = None\<rparr>"

definition updateAttribution ::
  "attribution_state \<Rightarrow> leaflet_map \<Rightarrow> string nullable \<Rightarrow>
   attribution_state \<times> attribution_call list" where
  "updateAttribution st m attribution =
     (st\<lparr>attributionRef := Some attribution\<rparr>,
      (if Some attribution \<noteq> attributionRef st
       then (case attributionControl m of
               Def ctl \<Rightarrow>
                 (case attributionRef st of
                    Some (Def prev) \<Rightarrow> [RemoveAttribution ctl prev]
                  | _ \<Rightarrow> [])
                 @ (case attribution of Def a \<Rightarrow> [AddAttribution ctl a] | _ \<Rightarrow> [])
             | _ \<Rightarrow> [])
       else []))"

text \<open>One render of \<open>useAttribution\<close> and its commit: \<open>useRef(attribution)\<close> fills the ref
  on the first render; the dependencies of the effect are \<open>[map, attribution]\<close>.\<close>

definition useAttribution ::
  "attribution_state \<Rightarrow> leaflet_map \<times> string nullable \<Rightarrow>
   attribution_state \<times> attribution_call list" where
  "useAttribution st ma =
     (let st1 = (case attributionRef st of
                   None \<Rightarrow> st\<lparr>attributionRef := Some (snd ma)\<rparr>
                 | Some _ \<Rightarrow> st);
          deps = (map_ref (fst ma), snd ma)
      in if deps_changed (updateAttribution_deps st1) deps
         then (let (st2, t) = updateAttribution st1 (fst ma) (snd ma)
               in (st2\<lparr>updateAttribution_deps := Some deps\<rparr>, t))
         else (st1, []))"

fun attribution_run ::
  "attribution_state \<Rightarrow> (leaflet_map \<times> string nullable) list \<Rightarrow>
   attribution_state \<times> attribution_call list" where
  "attribution_run st [] = (st, [])"
| "attribution_run st (ma # mas) =
     (let (st1, t1) = useAttribution st ma;
          (st2, t2) = attribution_run st1 mas
      in (st2, t1 @ t2))"

fun is_addAttribution :: "attribution_call \<Rightarrow> bool" where
  "is_addAttribution (AddAttribution _ _) = True"
| "is_addAttribution _ = False"

text \<open>
  Modelled from the spec: the attribution display of Leaflet's attribution control (the
  library is not part of the repository), as the number of registrations of each text on
  one control: \<open>addAttribution\<close> counts one up, \<open>removeAttribution\<close> counts one down, and
  a text is displayed while its count is positive.
\<close>

fun apply_attribution_call :: "nat \<Rightarrow> attribution_call \<Rightarrow> (string \<Rightarrow> nat) \<Rightarrow> (string \<Rightarrow> nat)" where
  "apply_attribution_call ctl (AddAttribution c a) reg =
     (if c = ctl then reg(a := reg a + 1) else reg)"
| "apply_attribution_call ctl (RemoveAttribution c a) reg =
     (if c = ctl then reg(a := reg a - 1) else reg)"

text \<open>The two texts are not both displayed before the calls and after each of them.\<close>

fun never_both ::
  "nat \<Rightarrow> string \<Rightarrow> string \<Rightarrow> (string \<Rightarrow> nat) \<Rightarrow> attribution_call list \<Rightarrow> bool" where
  "never_both ctl a b reg [] = (\<not> (0 < reg a \<and> 0 < reg b))"
| "never_both ctl a b reg (c # cs) =
     (\<not> (0 < reg a \<and> 0 < reg b) \<and> never_both ctl a b (apply_attribution_call ctl c reg) cs)"

section \<open>Layer attach/detach (layer.ts)\<close>

datatype 'l layer_call = AddLayer nat 'l | RemoveLayer nat 'l

text \<open>
  The slots of \<open>useLayerLifecycle\<close>: its one effect. The cleanup \<open>removeLayer\<close> holds the
  \<open>context\<close> and the \<open>element\<close> of the render that ran the effect.
\<close>

record 'l layer_state =
  addLayer_deps :: "(leaflet_context \<times> 'l leaflet_element) option"
  removeLayer :: "(leaflet_context \<times> 'l leaflet_element) option"

definition layer_init :: "'l layer_state" where
  "layer_init = \<lparr>addLayer_deps = None, removeLayer = None\<rparr>"

definition addLayer ::
  "'l layer_state \<Rightarrow> 'l leaflet_element \<Rightarrow> leaflet_context \<Rightarrow>
   'l layer_state \<times> 'l layer_call list" where
  "addLayer st element context =
     (let container = (case layerContainer context of Some c \<Rightarrow> c | None \<Rightarrow> ctx_map context)
      in (st\<lparr>removeLayer := Some (context, element)\<rparr>,
          [AddLayer container (el_instance element)]))"

definition run_removeLayer :: "'l layer_state \<Rightarrow> 'l layer_state \<times> 'l layer_call list" where
  "run_removeLayer st =
     (case removeLayer st of
        None \<Rightarrow> (st, [])
      | Some (context, element) \<Rightarrow>
          (st\<lparr>removeLayer := None\<rparr>,
           (case layerContainer context of
              Some c \<Rightarrow> [RemoveLayer c (el_instance element)]
            | None \<Rightarrow> [])
           @ [RemoveLayer (ctx_map context) (el_instance element)]))"

text \<open>One render of \<open>useLayerLifecycle\<close> and its commit; the dependencies of the effect
  are \<open>[context, element]\<close>.\<close>

definition useLayerLifecycle ::
  "'l layer_state \<Rightarrow> 'l leaflet_element \<Rightarrow> leaflet_context \<Rightarrow>
   'l layer_state \<times> 'l layer_call list" where
  "useLayerLifecycle st element context =
     (if deps_changed (addLayer_deps st) (context, element)
      then (let (st1, t1) = run_removeLayer st;
                (st2, t2) = addLayer st1 element context
            in (st2\<lparr>addLayer_deps := Some (context, element)\<rparr>, t1 @ t2))
      else (st, []))"

definition layer_unmount :: "'l layer_state \<Rightarrow> 'l layer_state \<times> 'l layer_call list" where
  "layer_unmount st = run_removeLayer st"

text \<open>
  Modelled from the spec: Leaflet's \<open>addLayer\<close> and \<open>removeLayer\<close> (the library is not
  part of the repository), on the layer sets of the map and of the layer containers,
  keyed by the reference of the container: adding a layer that is present and removing
  one that is absent change nothing, and neither fails.
\<close>

fun apply_layer_call :: "'l layer_call \<Rightarrow> (nat \<Rightarrow> 'l set) \<Rightarrow> (nat \<Rightarrow> 'l set)" where
  "apply_layer_call (AddLayer c l) w = w(c := insert l (w c))"
| "apply_layer_call (RemoveLayer c l) w = w(c := w c - {l})"

definition apply_layer_calls :: "'l layer_call list \<Rightarrow> (nat \<Rightarrow> 'l set) \<Rightarrow> (nat \<Rightarrow> 'l set)" where
  "apply_layer_calls calls w = foldl (\<lambda>s c. apply_layer_call c s) w calls"

section \<open>Panes (the Pane component)\<close>

definition DEFAULT_PANES :: "string list" where
  "DEFAULT_PANES =
     [''mapPane'', ''markerPane'', ''overlayPane'', ''popupPane'', ''shadowPane'',
      ''tilePane'', ''tooltipPane'']"

text \<open>\<open>omitPane\<close>: the object without the key \<open>pane\<close>.\<close>

definition omitPane :: "(string \<rightharpoonup> 'v) \<Rightarrow> string \<Rightarrow> (string \<rightharpoonup> 'v)" where
  "omitPane obj pn = obj(pn := None)"

text \<open>\<open>PaneProps\<close>; \<open>style\<close> is an object, given by its keys and values in key order.\<close>

record 'c pane_props =
  p_children :: "'c nullable"
  p_className :: "string nullable"
  p_name :: string
  p_pane :: "string nullable"
  p_style :: "(string \<times> string) list nullable"

text \<open>
  The internals of a Leaflet map that the component reads and writes: the registries
  \<open>_panes\<close> (pane name to DOM node) and \<open>_paneRenderers\<close>. The maps live in a store keyed
  by the reference of the map, which is what a context holds.
\<close>

record map_state =
  panes :: "(string \<rightharpoonup> nat) option"
  paneRenderers :: "string \<rightharpoonup> nat"

text \<open>
  Modelled from the spec: Leaflet's \<open>getPane\<close> and \<open>createPane\<close> (the library is not part
  of the repository). \<open>getPane\<close> reads the registry \<open>_panes\<close>; \<open>createPane\<close> makes a new
  DOM node, whose reference is \<open>fresh\<close>, and enters it in \<open>_panes\<close> under the name unless
  the name is empty. The DOM tree is not modelled, so the parent node has no effect here.
  Both fail with a type error on a map that has no registry.
\<close>

definition getPane :: "map_state \<Rightarrow> string \<Rightarrow> usage_error + nat nullable" where
  "getPane ms pn =
     (case panes ms of
        None \<Rightarrow> Inl BackendTypeError
      | Some ps \<Rightarrow> Inr (case ps pn of None \<Rightarrow> Undefined | Some node \<Rightarrow> Def node))"

definition map_createPane ::
  "nat \<Rightarrow> map_state \<Rightarrow> string \<Rightarrow> nat nullable \<Rightarrow> usage_error + nat \<times> map_state" where
  "map_createPane fresh ms pn parent =
     (case panes ms of
        None \<Rightarrow> Inl BackendTypeError
      | Some ps \<Rightarrow>
          Inr (fresh, if pn \<noteq> [] then ms\<lparr>panes := Some (ps(pn \<mapsto> fresh))\<rparr> else ms))"

text \<open>\<open>createPane\<close> of the component: the created node, the store after it, and the
  calls that style the node.\<close>

definition createPane ::
  "nat \<Rightarrow> string \<Rightarrow> 'c pane_props \<Rightarrow> leaflet_context \<Rightarrow> (nat \<Rightarrow> map_state) \<Rightarrow>
   usage_error + nat \<times> (nat \<Rightarrow> map_state) \<times> nat dom_call list" where
  "createPane fresh pn props context world =
     (if pn \<in> set DEFAULT_PANES then Inl (ReservedPaneName pn)
      else
        (case getPane (world (ctx_map context)) pn of
           Inl err \<Rightarrow> Inl err
         | Inr (Def _) \<Rightarrow> Inl (PaneExists pn)
         | Inr _ \<Rightarrow>
             let parentPaneName = coalesce (p_pane props) (ctx_pane context) in
             (case (case parentPaneName of
                      Def n \<Rightarrow> if n \<noteq> [] then getPane (world (ctx_map context)) n
                               else Inr Undefined
                    | _ \<Rightarrow> Inr Undefined) of
                Inl err \<Rightarrow> Inl err
              | Inr parentPane \<Rightarrow>
                  (case map_createPane fresh (world (ctx_map context)) pn parentPane of
                     Inl err \<Rightarrow> Inl err
                   | Inr (element, ms) \<Rightarrow>
                       Inr (element, world(ctx_map context := ms),
                            (case p_className props of
                               Def cn \<Rightarrow> addClassName element cn
                             | _ \<Rightarrow> [])
                            @ (case p_style props of
                                 Def kvs \<Rightarrow> map (\<lambda>kv. SetStyle element (fst kv) (snd kv)) kvs
                               | _ \<Rightarrow> []))))))"

text \<open>What the component renders: nothing, or a portal into the pane's node that
  provides the derived context to the children.\<close>

datatype 'c rendered = RenderNull | Portal leaflet_context 'c nat

text \<open>
  The slots of \<open>PaneComponent\<close>: the two states \<open>paneName\<close> and \<open>paneElement\<close>, the
  memoised \<open>newContext\<close> with the context it was computed from, and the one effect, whose
  dependencies are \<open>[]\<close>. The cleanup \<open>removeCreatedPane\<close> holds the \<open>context\<close> and the
  \<open>paneName\<close> of the render that ran the effect.
\<close>

record pane_state =
  paneName :: "string option"
  paneElement :: "nat nullable"
  newContext_memo :: "(leaflet_context \<times> leaflet_context) option"
  createPane_deps :: "unit option"
  removeCreatedPane :: "(leaflet_context \<times> string) option"

definition pane_init :: pane_state where
  "pane_init =
     \<lparr>paneName = None, paneElement = Null, newContext_memo = None, createPane_deps = None,
      removeCreatedPane = None\<rparr>"

text \<open>
  One render of \<open>PaneComponent\<close> and its commit. \<open>fresh_ctx\<close> is the reference of the
  object that the spread \<open>{ ...context, pane: paneName }\<close> allocates when \<open>useMemo\<close>
  computes it, \<open>fresh_node\<close> that of the DOM node that Leaflet creates. The result is the
  slots, the store of the maps, the styling calls and what was rendered.
\<close>

definition PaneComponent ::
  "nat \<Rightarrow> nat \<Rightarrow> pane_state \<Rightarrow> 'c pane_props \<Rightarrow> leaflet_context option \<Rightarrow>
   (nat \<Rightarrow> map_state) \<Rightarrow>
   usage_error + pane_state \<times> (nat \<Rightarrow> map_state) \<times> nat dom_call list \<times> 'c rendered" where
  "PaneComponent fresh_ctx fresh_node st props provided world =
     (let pn = (case paneName st of None \<Rightarrow> p_name props | Some n \<Rightarrow> n) in
      (case useLeafletContext provided of
         Inl err \<Rightarrow> Inl err
       | Inr context \<Rightarrow>
           let derived = context\<lparr>ctx_ref := fresh_ctx, ctx_pane := Def pn\<rparr>;
               newContext =
                 (case newContext_memo st of
                    None \<Rightarrow> derived
                  | Some (c, v) \<Rightarrow> if c = context then v else derived);
               out =
                 (case p_children props of
                    Def ch \<Rightarrow>
                      (case paneElement st of
                         Def node \<Rightarrow> Portal newContext ch node
                       | _ \<Rightarrow> RenderNull)
                  | _ \<Rightarrow> RenderNull);
               st1 = st\<lparr>paneName := Some pn, newContext_memo := Some (context, newContext)\<rparr>
           in if deps_changed (createPane_deps st1) ()
              then (case createPane fresh_node pn props context world of
                      Inl err \<Rightarrow> Inl err
                    | Inr (element, world1, calls) \<Rightarrow>
                        Inr (st1\<lparr>paneElement := Def element, createPane_deps := Some (),
                                 removeCreatedPane := Some (context, pn)\<rparr>,
                             world1, calls, out))
              else Inr (st1, world, [], out)))"

text \<open>Unmounting runs the cleanup \<open>removeCreatedPane\<close>.\<close>

definition PaneComponent_unmount ::
  "pane_state \<Rightarrow> (nat \<Rightarrow> map_state) \<Rightarrow>
   usage_error + pane_state \<times> (nat \<Rightarrow> map_state) \<times> nat dom_call list" where
  "PaneComponent_unmount st world =
     (case removeCreatedPane st of
        None \<Rightarrow> Inr (st, world, [])
      | Some (context, pn) \<Rightarrow>
          let ms = world (ctx_map context) in
          (case getPane ms pn of
             Inl err \<Rightarrow> Inl err
           | Inr found \<Rightarrow>
               let calls = (case found of Def node \<Rightarrow> [RemoveNode node] | _ \<Rightarrow> []);
                   ms1 = (case panes ms of
                            Some ps \<Rightarrow>
                              ms\<lparr>panes := Some (omitPane ps pn),
                                 paneRenderers := omitPane (paneRenderers ms) pn\<rparr>
                          | None \<Rightarrow> ms)
               in Inr (st\<lparr>removeCreatedPane := None\<rparr>, world(ctx_map context := ms1), calls)))"

text \<open>The renders of a mounted component, one after the other, until one throws.\<close>

fun pane_run ::
  "pane_state \<Rightarrow> (nat \<Rightarrow> map_state) \<Rightarrow>
   (nat \<times> nat \<times> 'c pane_props \<times> leaflet_context option) list \<Rightarrow>
   usage_error + pane_state \<times> (nat \<Rightarrow> map_state) \<times> nat dom_call list \<times> 'c rendered list" where
  "pane_run st world [] = Inr (st, world, [], [])"
| "pane_run st world (r # rs) =
     (case PaneComponent (fst r) (fst (snd r)) st (fst (snd (snd r))) (snd (snd (snd r))) world of
        Inl err \<Rightarrow> Inl err
      | Inr (st1, world1, t1, out) \<Rightarrow>
          (case pane_run st1 world1 rs of
             Inl err \<Rightarrow> Inl err
           | Inr (st2, world2, t2, outs) \<Rightarrow> Inr (st2, world2, t1 @ t2, out # outs)))"

section \<open>Definitions used to state the properties\<close>

text \<open>
  The spec's words for the update-capable hook: on every activation after the first,
  \<open>update\<close> is invoked if and only if the props differ from the ones last applied, with
  the instance, the new props and the last-applied props, and the new props are then the
  last applied. \<open>expected_updates inst applied ps\<close> is the list of these calls for the
  props \<open>ps\<close> of the activations that follow, when \<open>applied\<close> was applied last.
\<close>

fun expected_updates :: "'e \<Rightarrow> 'p \<Rightarrow> 'p list \<Rightarrow> ('e, 'p) element_call list" where
  "expected_updates inst applied [] = []"
| "expected_updates inst applied (p # ps) =
     (if p \<noteq> applied then [UpdateElement inst p applied] else [])
     @ expected_updates inst p ps"

text \<open>The slots of a mounted update-capable element hook that holds the element \<open>el\<close>
  and applied the props \<open>q\<close> last.\<close>

definition element_mounted :: "('e, 'p) element_state \<Rightarrow> 'e leaflet_element \<Rightarrow> 'p \<Rightarrow> bool" where
  "element_mounted st el q =
     (elementRef st = Some el \<and> propsRef st = Some q \<and>
      (\<exists>c. updateElementProps_deps st = Some (el_instance el, q, c)))"

text \<open>The container that \<open>addLayer\<close> inserts into: \<open>context.layerContainer ?? context.map\<close>.\<close>

definition layer_target :: "leaflet_context \<Rightarrow> nat" where
  "layer_target context = (case layerContainer context of Some c \<Rightarrow> c | None \<Rightarrow> ctx_map context)"

text \<open>The registrations that the slots of \<open>useEventHandlers\<close> say are installed.\<close>

definition handlers_active :: "('e, 'h) handlers_state \<Rightarrow> ('e \<times> 'h) list" where
  "handlers_active st =
     (case removeEventHandlers st of
        None \<Rightarrow> []
      | Some element \<Rightarrow>
          (case eventHandlersRef st of Def h \<Rightarrow> [(el_instance element, h)] | _ \<Rightarrow> []))"

text \<open>The slots of \<open>useEventHandlers\<close> after a commit: the ref and the cleanup agree with
  the dependencies of the last run of the effect.\<close>

definition handlers_consistent :: "('e, 'h) handlers_state \<Rightarrow> bool" where
  "handlers_consistent st =
     (case addEventHandlers_deps st of
        None \<Rightarrow> removeEventHandlers st = None
      | Some eh \<Rightarrow> eventHandlersRef st = snd eh \<and> removeEventHandlers st = Some (fst eh))"

text \<open>The slots of \<open>useAttribution\<close> after a commit: the ref holds the attribution of the
  last run of the effect.\<close>

definition attribution_consistent :: "attribution_state \<Rightarrow> bool" where
  "attribution_consistent st =
     (case updateAttribution_deps st of
        None \<Rightarrow> True
      | Some d \<Rightarrow> attributionRef st = Some (snd d))"

text \<open>What a pane component may render: nothing, or a portal into the node \<open>node\<close> that
  provides a context whose pane is \<open>pn\<close>.\<close>

fun portal_into :: "string \<Rightarrow> nat \<Rightarrow> 'c rendered \<Rightarrow> bool" where
  "portal_into pn node RenderNull = True"
| "portal_into pn node (Portal v ch n) = (ctx_pane v = Def pn \<and> n = node)"

text \<open>The slots of a mounted pane component that created the pane \<open>pn\<close>, with the node
  \<open>node\<close>, under the context \<open>cx\<close>.\<close>

definition pane_mounted :: "pane_state \<Rightarrow> string \<Rightarrow> leaflet_context \<Rightarrow> nat \<Rightarrow> bool" where
  "pane_mounted st pn cx node =
     (paneName st = Some pn \<and> paneElement st = Def node \<and> createPane_deps st = Some () \<and>
      removeCreatedPane st = Some (cx, pn) \<and>
      (case newContext_memo st of None \<Rightarrow> True | Some cv \<Rightarrow> ctx_pane (snd cv) = Def pn))"

section \<open>Sample values\<close>

text \<open>A map (reference 3) with an attribution control (reference 8) and the panes
  \<open>tilePane\<close> and \<open>labels\<close>, a context of this map with a layer container (reference 9), a layer
  (reference 5), a control (reference 10), and props.\<close>

definition sample_context :: leaflet_context where
  "sample_context =
     \<lparr>ctx_ref = 2, version = 1, ctx_map = 3, layerContainer = Some 9, layersControl = None,
      overlayContainer = None, ctx_pane = Undefined\<rparr>"

definition sample_element :: "nat leaflet_element" where
  "sample_element = createElementObject 1 5 sample_context Undefined"

definition sample_map :: leaflet_map where
  "sample_map = \<lparr>map_ref = 3, attributionControl = Def 8\<rparr>"

definition sample_createControl :: "control_options \<Rightarrow> leaflet_context \<Rightarrow> nat leaflet_element" where
  "sample_createControl props cx = createElementObject 20 10 cx Undefined"

definition sample_props :: "nat \<Rightarrow> string \<Rightarrow> control_options" where
  "sample_props r pos = \<lparr>props_ref = r, position = Def pos\<rparr>"

definition sample_control_state :: "string \<Rightarrow> (nat, control_options) control_state" where
  "sample_control_state pos =
     \<lparr>element_slots =
        \<lparr>elementRef = Some (createElementObject 20 10 sample_context Undefined),
         propsRef = None, updateElementProps_deps = None\<rparr>,
      positionRef = Some (Def pos), addControl_deps = Some (3, 10), removeControl = Some 10,
      updateControl_deps = Some (10, Def pos)\<rparr>"

definition sample_pane_props :: "string \<Rightarrow> unit pane_props" where
  "sample_pane_props pn =
     \<lparr>p_children = Def (), p_className = Def ''big'', p_name = pn, p_pane = Undefined,
      p_style = Undefined\<rparr>"

definition sample_world :: "nat \<Rightarrow> map_state" where
  "sample_world =
     (\<lambda>m. \<lparr>panes = Some [''tilePane'' \<mapsto> 100, ''labels'' \<mapsto> 101],
           paneRenderers = Map.empty\<rparr>)"

section \<open>Properties of the element lifecycle core\<close>

lemmas element_hook_defs =
  element_activate_def createElementHook_render_def createElementHook_commit_def
  useImmutableLeafletElement_def useMutableLeafletElement_def
  useMutableLeafletElement_commit_def updateElementProps_def deps_changed_def

lemma element_activate_elementRef_Some:
  "elementRef st = Some el \<Longrightarrow>
   elementRef (fst (element_activate createElement u st pc)) = Some el"
  by (auto simp: element_hook_defs Let_def split: option.splits prod.splits if_splits)

lemma element_activate_no_create:
  "elementRef st = Some el \<Longrightarrow>
   filter is_create (snd (element_activate createElement u st pc)) = []"
  by (auto simp: element_hook_defs Let_def split: option.splits prod.splits if_splits)

lemma element_run_mounted:
  "elementRef st = Some el \<Longrightarrow>
   elementRef (fst (element_run createElement u st pcs)) = Some el \<and>
   filter is_create (snd (element_run createElement u st pcs)) = []"
proof (induction pcs arbitrary: st)
  case Nil
  then show ?case by simp
next
  case (Cons pc pcs)
  obtain st1 t1 where a: "element_activate createElement u st pc = (st1, t1)"
    by (cases "element_activate createElement u st pc")
  have r: "elementRef st1 = Some el"
    using element_activate_elementRef_Some [OF Cons.prems, of createElement u pc] a by simp
  have c: "filter is_create t1 = []"
    using element_activate_no_create [OF Cons.prems, of createElement u pc] a by simp
  from Cons.IH [OF r] a c show ?case
    by (simp add: split_beta)
qed

lemma element_activate_first:
  "elementRef st = None \<Longrightarrow>
   elementRef (fst (element_activate createElement u st (p, c))) = Some (createElement p c) \<and>
   filter is_create (snd (element_activate createElement u st (p, c))) = [CreateElement p c]"
  by (auto simp: element_hook_defs Let_def split: option.splits prod.splits if_splits)

text \<open>
  C1. A component instance starts in \<open>element_init\<close> and is activated once for each
  render, here with the props and context \<open>(p, c)\<close> first and then with those of any list
  \<open>pcs\<close>. Whether or not \<open>updateElement\<close> was supplied, and however the props change,
  \<open>createElement\<close> is called exactly once, with the props and context of the first
  activation, and after every activation \<open>elementRef.current\<close> is the element that this
  one call returned.
\<close>

theorem createElementHook_creates_once:
  "elementRef (fst (element_run createElement u element_init ((p, c) # pcs)))
     = Some (createElement p c) \<and>
   filter is_create (snd (element_run createElement u element_init ((p, c) # pcs)))
     = [CreateElement p c]"
proof -
  obtain st1 t1 where a: "element_activate createElement u element_init (p, c) = (st1, t1)"
    by (cases "element_activate createElement u element_init (p, c)")
  have n: "elementRef (element_init :: ('a, 'b) element_state) = None"
    by (simp add: element_init_def)
  from element_activate_first [OF n, of createElement u p c] a
  have r: "elementRef st1 = Some (createElement p c)"
    and f: "filter is_create t1 = [CreateElement p c]"
    by simp_all
  from element_run_mounted [OF r, of createElement u pcs] a f show ?thesis
    by (simp add: split_beta)
qed

lemma mutable_activate_first:
  "element_activate createElement True element_init (p, c) = (st, t) \<Longrightarrow>
   t = [CreateElement p c] \<and> element_mounted st (createElement p c) p"
  by (auto simp: element_hook_defs element_init_def element_mounted_def Let_def
      split: option.splits prod.splits if_splits)

lemma mutable_activate_mounted:
  "element_mounted st el q \<Longrightarrow> element_activate createElement True st (p, c) = (st', t) \<Longrightarrow>
   t = (if p \<noteq> q then [UpdateElement (el_instance el) p q] else []) \<and> element_mounted st' el p"
  by (auto simp: element_hook_defs element_mounted_def Let_def
      split: option.splits prod.splits if_splits)

lemma mutable_run_mounted:
  "element_mounted st el q \<Longrightarrow>
   snd (element_run createElement True st pcs) = expected_updates (el_instance el) q (map fst pcs) \<and>
   element_mounted (fst (element_run createElement True st pcs)) el (last (q # map fst pcs))"
proof (induction pcs arbitrary: st q)
  case Nil
  then show ?case by simp
next
  case (Cons pc pcs)
  obtain p c where pc: "pc = (p, c)" by (cases pc)
  obtain st1 t1 where a: "element_activate createElement True st (p, c) = (st1, t1)"
    by (cases "element_activate createElement True st (p, c)")
  from mutable_activate_mounted [OF Cons.prems a]
  have t1: "t1 = (if p \<noteq> q then [UpdateElement (el_instance el) p q] else [])"
    and m1: "element_mounted st1 el p" by simp_all
  from Cons.IH [OF m1] a t1 pc show ?case
    by (simp add: split_beta)
qed

lemma expected_updates_no_self: "UpdateElement i a a \<notin> set (expected_updates inst q ps)"
  by (induction ps arbitrary: q) auto

text \<open>
  C2. The hook that \<open>createElementHook\<close> returns when \<open>updateElement\<close> is supplied, started
  in \<open>element_init\<close> and activated with \<open>(p, c)\<close> and then with each of \<open>pcs\<close>: its calls
  are the creation, followed by exactly the updates of the spec (\<open>expected_updates\<close>:
  on each later activation, one call \<open>updateElement(instance, props, prevProps)\<close> if and
  only if the props differ from the last-applied ones, none otherwise, so none when the
  same props come twice in a row); after the activations \<open>propsRef\<close> holds the props of
  the last one; and no call has the same props as old and new.
\<close>

theorem updateElement_iff_props_differ:
  "snd (element_run createElement True element_init ((p, c) # pcs))
     = CreateElement p c # expected_updates (el_instance (createElement p c)) p (map fst pcs) \<and>
   propsRef (fst (element_run createElement True element_init ((p, c) # pcs)))
     = Some (last (p # map fst pcs)) \<and>
   UpdateElement i a a \<notin> set (snd (element_run createElement True element_init ((p, c) # pcs)))"
proof -
  obtain st1 t1 where a: "element_activate createElement True element_init (p, c) = (st1, t1)"
    by (cases "element_activate createElement True element_init (p, c)")
  from mutable_activate_first [OF a]
  have t1: "t1 = [CreateElement p c]" and m1: "element_mounted st1 (createElement p c) p"
    by simp_all
  from mutable_run_mounted [OF m1, of createElement pcs]
  have r: "snd (element_run createElement True st1 pcs)
             = expected_updates (el_instance (createElement p c)) p (map fst pcs)"
    and m: "element_mounted (fst (element_run createElement True st1 pcs)) (createElement p c)
             (last (p # map fst pcs))" by simp_all
  have tr: "snd (element_run createElement True element_init ((p, c) # pcs))
     = CreateElement p c # expected_updates (el_instance (createElement p c)) p (map fst pcs)"
    using a t1 r by (simp add: split_beta)
  have pr: "propsRef (fst (element_run createElement True element_init ((p, c) # pcs)))
     = Some (last (p # map fst pcs))"
    using a m by (simp add: split_beta element_mounted_def)
  have ns: "UpdateElement i a a
      \<notin> set (snd (element_run createElement True element_init ((p, c) # pcs)))"
    unfolding tr using expected_updates_no_self [of i a] by simp
  from tr pr ns show ?thesis by blast
qed

section \<open>Properties of the ambient pane resolution\<close>

text \<open>
  C10, as the claim states it, fails: with no \<open>pane\<close> in the props and the empty string
  as the pane of the context (a value of its type \<open>string\<close>), \<open>withPane\<close> returns the
  props as they are, and their pane is not the pane of the context.
\<close>

theorem withPane_claim_counterexample:
  "pane (withPane 7 \<lparr>obj_ref = 1, pane = Undefined\<rparr>
      \<lparr>ctx_ref = 2, version = 1, ctx_map = 3, layerContainer = None, layersControl = None,
       overlayContainer = None, ctx_pane = Def []\<rparr>)
   \<noteq> ctx_pane \<lparr>ctx_ref = 2, version = 1, ctx_map = 3, layerContainer = None,
       layersControl = None, overlayContainer = None, ctx_pane = Def []\<rparr>"
  by (simp add: withPane_def)

text \<open>
  C10, amended. The pane of the result is the pane of the props when that is defined;
  otherwise it is the pane of the context when that is a non-empty string; otherwise
  (the pane of the props is not defined, and that of the context is not defined or is the
  empty string) the result is the props object itself, unchanged. In every case all the
  other fields of the props are preserved.
\<close>

theorem withPane_resolves:
  "(not_nullish (pane props) \<longrightarrow> pane (withPane fresh props context) = pane props) \<and>
   (\<not> not_nullish (pane props) \<and> truthy (ctx_pane context) \<longrightarrow>
      pane (withPane fresh props context) = ctx_pane context) \<and>
   (\<not> not_nullish (pane props) \<and> \<not> truthy (ctx_pane context) \<longrightarrow>
      withPane fresh props context = props) \<and>
   layer_options.more (withPane fresh props context) = layer_options.more props"
  by (cases "pane props"; cases "ctx_pane context") (auto simp: withPane_def Let_def)

theorem withPane_resolves_witness:
  "pane (withPane 7 \<lparr>obj_ref = 1, pane = Def ''shadowPane'', \<dots> = True\<rparr>
      \<lparr>ctx_ref = 2, version = 1, ctx_map = 3, layerContainer = None, layersControl = None,
       overlayContainer = None, ctx_pane = Def ''custom''\<rparr>) = Def ''shadowPane'' \<and>
   pane (withPane 7 \<lparr>obj_ref = 1, pane = Undefined, \<dots> = True\<rparr>
      \<lparr>ctx_ref = 2, version = 1, ctx_map = 3, layerContainer = None, layersControl = None,
       overlayContainer = None, ctx_pane = Def ''custom''\<rparr>) = Def ''custom'' \<and>
   withPane 7 \<lparr>obj_ref = 1, pane = Undefined, \<dots> = True\<rparr>
      \<lparr>ctx_ref = 2, version = 1, ctx_map = 3, layerContainer = None, layersControl = None,
       overlayContainer = None, ctx_pane = Undefined\<rparr>
     = \<lparr>obj_ref = 1, pane = Undefined, \<dots> = True\<rparr>"
  using withPane_resolves [of "\<lparr>obj_ref = 1, pane = Def ''shadowPane'', \<dots> = True\<rparr>" 7
      "\<lparr>ctx_ref = 2, version = 1, ctx_map = 3, layerContainer = None, layersControl = None,
       overlayContainer = None, ctx_pane = Def ''custom''\<rparr>"]
    withPane_resolves [of "\<lparr>obj_ref = 1, pane = Undefined, \<dots> = True\<rparr>" 7
      "\<lparr>ctx_ref = 2, version = 1, ctx_map = 3, layerContainer = None, layersControl = None,
       overlayContainer = None, ctx_pane = Def ''custom''\<rparr>"]
    withPane_resolves [of "\<lparr>obj_ref = 1, pane = Undefined, \<dots> = True\<rparr>" 7
      "\<lparr>ctx_ref = 2, version = 1, ctx_map = 3, layerContainer = None, layersControl = None,
       overlayContainer = None, ctx_pane = Undefined\<rparr>"]
  by simp

section \<open>Properties of the CSS class synchronisation\<close>

text \<open>
  C4, as the claim states it, fails: \<open>updateClassName(el, "a b", "b c")\<close> removes the
  class \<open>b\<close> and then adds it again.
\<close>

theorem updateClassName_claim_counterexample:
  "updateClassName (Def (0::nat)) (Def ''a b'') (Def ''b c'')
     = [RemoveClass 0 ''a'', RemoveClass 0 ''b'', AddClass 0 ''b'', AddClass 0 ''c'']"
  by (simp add: updateClassName_def removeClassName_def addClassName_def splitClassName_def)

text \<open>
  C4, amended. \<open>updateClassName(el, "a b", "b c")\<close> removes every class of the previous
  string, \<open>a\<close> and then \<open>b\<close>, and then adds every class of the next string, \<open>b\<close> and then
  \<open>c\<close>. In net effect on the classes of the element, \<open>a\<close> is removed, \<open>c\<close> is added and
  \<open>b\<close> is present at the end.
\<close>

theorem updateClassName_removes_all_then_adds_all:
  "updateClassName (Def el) (Def ''a b'') (Def ''b c'')
     = [RemoveClass el ''a'', RemoveClass el ''b'', AddClass el ''b'', AddClass el ''c''] \<and>
   set (apply_dom_calls el (updateClassName (Def el) (Def ''a b'') (Def ''b c'')) cs)
     = (set cs - {''a'', ''b''}) \<union> {''b'', ''c''}"
  by (auto simp: updateClassName_def removeClassName_def addClassName_def splitClassName_def
      apply_dom_calls_def)

section \<open>Properties of the layer attach/detach\<close>

lemmas layer_hook_defs =
  useLayerLifecycle_def layer_unmount_def run_removeLayer_def addLayer_def layer_init_def
  deps_changed_def

lemma layer_mount_calls:
  "snd (useLayerLifecycle layer_init element cx)
     = [AddLayer (layer_target cx) (el_instance element)]"
  by (simp add: layer_hook_defs layer_target_def Let_def split: option.splits)

lemma layer_unmount_calls:
  "snd (layer_unmount (fst (useLayerLifecycle layer_init element cx)))
     = (case layerContainer cx of
          Some c \<Rightarrow> [RemoveLayer c (el_instance element)]
        | None \<Rightarrow> [])
       @ [RemoveLayer (ctx_map cx) (el_instance element)]"
  by (simp add: layer_hook_defs Let_def split: option.splits)

text \<open>
  C3. The mount of \<open>useLayerLifecycle\<close> makes one call: \<open>addLayer\<close> on the layer
  container of the context when there is one, on the map otherwise. The unmount that
  follows calls \<open>removeLayer\<close> on the layer container if there is one, and then on the
  map. In net effect the mount followed by the unmount takes the layer out of the layer
  set of that container and of the map, and changes no other layer set. So when the
  layer is a new one, in neither layer set before the mount, the mount followed by the
  unmount leaves every layer set as it was; and the unmount alone, on layer sets that do
  not hold the layer (it was removed already), changes nothing and does not fail.
\<close>

theorem useLayerLifecycle_mount_unmount:
  "snd (useLayerLifecycle layer_init element cx)
     = [AddLayer (layer_target cx) (el_instance element)] \<and>
   snd (layer_unmount (fst (useLayerLifecycle layer_init element cx)))
     = (case layerContainer cx of
          Some c \<Rightarrow> [RemoveLayer c (el_instance element)]
        | None \<Rightarrow> [])
       @ [RemoveLayer (ctx_map cx) (el_instance element)] \<and>
   apply_layer_calls
     (snd (useLayerLifecycle layer_init element cx)
      @ snd (layer_unmount (fst (useLayerLifecycle layer_init element cx)))) w
     = (\<lambda>k. if k = layer_target cx \<or> k = ctx_map cx then w k - {el_instance element}
             else w k) \<and>
   (el_instance element \<notin> w (layer_target cx) \<and> el_instance element \<notin> w (ctx_map cx) \<longrightarrow>
      apply_layer_calls
        (snd (useLayerLifecycle layer_init element cx)
         @ snd (layer_unmount (fst (useLayerLifecycle layer_init element cx)))) w = w \<and>
      apply_layer_calls
        (snd (layer_unmount (fst (useLayerLifecycle layer_init element cx)))) w = w)"
  unfolding layer_mount_calls layer_unmount_calls
  by (auto simp: apply_layer_calls_def layer_target_def fun_upd_idem fun_eq_iff
      split: option.splits)

theorem useLayerLifecycle_mount_unmount_witness:
  "snd (useLayerLifecycle layer_init sample_element sample_context) = [AddLayer 9 5] \<and>
   snd (layer_unmount (fst (useLayerLifecycle layer_init sample_element sample_context)))
     = [RemoveLayer 9 5, RemoveLayer 3 5] \<and>
   apply_layer_calls
     (snd (useLayerLifecycle layer_init sample_element sample_context)
      @ snd (layer_unmount (fst (useLayerLifecycle layer_init sample_element sample_context))))
     (\<lambda>k. if k = 9 then {4} else {})
   = (\<lambda>k. if k = 9 then {4} else {})"
proof -
  have h: "el_instance sample_element
             \<notin> (\<lambda>k. if k = 9 then {4::nat} else {}) (layer_target sample_context) \<and>
           el_instance sample_element
             \<notin> (\<lambda>k. if k = 9 then {4::nat} else {}) (ctx_map sample_context)"
    by (simp add: sample_element_def sample_context_def layer_target_def createElementObject_def)
  have a: "snd (useLayerLifecycle layer_init sample_element sample_context) = [AddLayer 9 5]"
    by (simp add: layer_mount_calls sample_element_def sample_context_def layer_target_def
        createElementObject_def)
  have b: "snd (layer_unmount (fst (useLayerLifecycle layer_init sample_element sample_context)))
     = [RemoveLayer 9 5, RemoveLayer 3 5]"
    by (simp add: layer_unmount_calls sample_element_def sample_context_def
        createElementObject_def)
  from useLayerLifecycle_mount_unmount [of sample_element sample_context
      "\<lambda>k. if k = 9 then {4} else {}", THEN conjunct2, THEN conjunct2, THEN conjunct2] h
  have c: "apply_layer_calls
     (snd (useLayerLifecycle layer_init sample_element sample_context)
      @ snd (layer_unmount (fst (useLayerLifecycle layer_init sample_element sample_context))))
     (\<lambda>k. if k = 9 then {4} else {})
   = (\<lambda>k. if k = 9 then {4} else {})"
    by blast
  from a b c show ?thesis by blast
qed
section \<open>Properties of the event-handler attach/detach\<close>

lemmas handlers_hook_defs =
  useEventHandlers_def handlers_unmount_def run_removeEventHandlers_def addEventHandlers_def
  deps_changed_def

lemma at_most_one_active_append:
  "at_most_one_active act (xs @ ys)
     = (at_most_one_active act xs \<and>
        at_most_one_active (foldl (\<lambda>a c. apply_evented_call c a) act xs) ys)"
proof (induction xs arbitrary: act)
  case Nil
  then show ?case by (cases ys) auto
next
  case (Cons x xs)
  then show ?case by auto
qed

lemma useEventHandlers_step:
  "useEventHandlers st eh = (st', t) \<Longrightarrow>
   at_most_one_active (handlers_active st) t \<and>
   foldl (\<lambda>a c. apply_evented_call c a) (handlers_active st) t = handlers_active st'"
  by (auto simp: handlers_hook_defs handlers_active_def Let_def
      split: option.splits prod.splits if_splits nullable.splits)

lemma useEventHandlers_consistent:
  "handlers_consistent st \<Longrightarrow> handlers_consistent (fst (useEventHandlers st eh))"
  by (auto simp: handlers_hook_defs handlers_consistent_def Let_def
      split: option.splits prod.splits if_splits nullable.splits)

lemma useEventHandlers_deps:
  "addEventHandlers_deps (fst (useEventHandlers st eh)) = Some eh"
  by (auto simp: handlers_hook_defs Let_def
      split: option.splits prod.splits if_splits nullable.splits)

lemma handlers_unmount_step:
  "handlers_unmount st = (st', t) \<Longrightarrow>
   at_most_one_active (handlers_active st) t \<and>
   foldl (\<lambda>a c. apply_evented_call c a) (handlers_active st) t = [] \<and> handlers_active st' = []"
  by (auto simp: handlers_hook_defs handlers_active_def Let_def
      split: option.splits prod.splits if_splits nullable.splits)

lemma handlers_run_invariant:
  "handlers_run st ehs = (st', t) \<Longrightarrow>
   at_most_one_active (handlers_active st) t \<and>
   foldl (\<lambda>a c. apply_evented_call c a) (handlers_active st) t = handlers_active st'"
proof (induction ehs arbitrary: st st' t)
  case Nil
  then show ?case
    by (auto simp: handlers_active_def split: option.splits nullable.splits)
next
  case (Cons eh ehs)
  obtain st1 t1 where a: "useEventHandlers st eh = (st1, t1)"
    by (cases "useEventHandlers st eh")
  obtain st2 t2 where b: "handlers_run st1 ehs = (st2, t2)"
    by (cases "handlers_run st1 ehs")
  from Cons.prems a b have e: "st' = st2" "t = t1 @ t2" by simp_all
  from useEventHandlers_step [OF a] Cons.IH [OF b] e show ?case
    by (simp add: at_most_one_active_append)
qed

lemma handlers_run_consistent:
  "handlers_consistent st \<Longrightarrow> handlers_consistent (fst (handlers_run st ehs))"
proof (induction ehs arbitrary: st)
  case Nil
  then show ?case by simp
next
  case (Cons eh ehs)
  from Cons.IH [OF useEventHandlers_consistent [OF Cons.prems, of eh]] show ?case
    by (simp add: split_beta)
qed

lemma handlers_run_snoc:
  "handlers_run st (ehs @ [eh])
     = (let (st1, t1) = handlers_run st ehs; (st2, t2) = useEventHandlers st1 eh
        in (st2, t1 @ t2))"
  by (induction ehs arbitrary: st) (auto simp: split_beta Let_def)

lemma handlers_init_consistent: "handlers_consistent handlers_init"
  by (simp add: handlers_consistent_def handlers_init_def)

lemma handlers_init_active: "handlers_active handlers_init = []"
  by (simp add: handlers_active_def handlers_init_def)

text \<open>
  C6. A component instance starts in \<open>handlers_init\<close> and renders with the elements and
  handler maps \<open>ehs\<close>. When its last render had the handler map \<open>h1\<close> and the next has
  \<open>h2\<close> on the same element, the calls of that render are \<open>off(h1)\<close> and then \<open>on(h2)\<close>
  if the two maps differ, and none if they are the same map. The unmount after a render
  with the handler map \<open>hs\<close> calls \<open>off\<close> with it if it is not null, and makes no call
  otherwise. Over all the renders and the unmount, at most one handler map is installed
  before and after each call, and none is installed after the unmount.
\<close>

theorem useEventHandlers_one_generation:
  "snd (useEventHandlers (fst (handlers_run handlers_init (ehs @ [(element, Def h1)])))
          (element, Def h2))
     = (if h1 \<noteq> h2 then [Off (el_instance element) h1, On (el_instance element) h2] else []) \<and>
   snd (handlers_unmount (fst (handlers_run handlers_init (ehs @ [(element, hs)]))))
     = (case hs of Def h \<Rightarrow> [Off (el_instance element) h] | _ \<Rightarrow> []) \<and>
   at_most_one_active []
     (snd (handlers_run handlers_init ehs)
      @ snd (handlers_unmount (fst (handlers_run handlers_init ehs)))) \<and>
   installed
     (snd (handlers_run handlers_init ehs)
      @ snd (handlers_unmount (fst (handlers_run handlers_init ehs)))) = []"
proof -
  let ?st = "fst (handlers_run handlers_init (ehs @ [(element, Def h1)]))"
  let ?su = "fst (handlers_run handlers_init (ehs @ [(element, hs)]))"
  have c: "handlers_consistent ?st"
    by (rule handlers_run_consistent [OF handlers_init_consistent])
  have d: "addEventHandlers_deps ?st = Some (element, Def h1)"
    by (simp add: handlers_run_snoc split_beta useEventHandlers_deps)
  have swap: "snd (useEventHandlers ?st (element, Def h2))
     = (if h1 \<noteq> h2 then [Off (el_instance element) h1, On (el_instance element) h2] else [])"
    using c d by (auto simp: handlers_hook_defs handlers_consistent_def Let_def)
  have cu: "handlers_consistent ?su"
    by (rule handlers_run_consistent [OF handlers_init_consistent])
  have du: "addEventHandlers_deps ?su = Some (element, hs)"
    by (simp add: handlers_run_snoc split_beta useEventHandlers_deps)
  have un: "snd (handlers_unmount ?su)
     = (case hs of Def h \<Rightarrow> [Off (el_instance element) h] | _ \<Rightarrow> [])"
    using cu du by (auto simp: handlers_hook_defs handlers_consistent_def Let_def)
  obtain st1 t1 where r: "handlers_run handlers_init ehs = (st1, t1)"
    by (cases "handlers_run handlers_init ehs")
  obtain st2 t2 where u: "handlers_unmount st1 = (st2, t2)"
    by (cases "handlers_unmount st1")
  have i: "at_most_one_active [] t1 \<and>
      foldl (\<lambda>a c. apply_evented_call c a) [] t1 = handlers_active st1"
    using handlers_run_invariant [OF r] by (simp add: handlers_init_active)
  from i handlers_unmount_step [OF u]
  have "at_most_one_active [] (t1 @ t2)" and "installed (t1 @ t2) = []"
    by (simp_all add: at_most_one_active_append installed_def)
  with swap un r u show ?thesis by simp
qed
section \<open>Properties of the attribution sync\<close>

text \<open>The calls of \<open>updateAttribution\<close>, by whether the map has an attribution control.\<close>

lemma updateAttribution_by_control:
  "updateAttribution st m attribution =
     (st\<lparr>attributionRef := Some attribution\<rparr>,
      (case attributionControl m of
         Def ctl \<Rightarrow>
           if Some attribution \<noteq> attributionRef st
           then (case attributionRef st of
                   Some (Def prev) \<Rightarrow> [RemoveAttribution ctl prev]
                 | _ \<Rightarrow> [])
                @ (case attribution of Def a \<Rightarrow> [AddAttribution ctl a] | _ \<Rightarrow> [])
           else []
       | _ \<Rightarrow> []))"
  by (cases "attributionControl m") (simp_all add: updateAttribution_def)

lemmas attribution_hook_defs = useAttribution_def updateAttribution_by_control deps_changed_def

lemma useAttribution_consistent:
  "attribution_consistent st \<Longrightarrow> attribution_consistent (fst (useAttribution st ma))"
  by (auto simp: attribution_hook_defs attribution_consistent_def Let_def
      split: option.splits prod.splits if_splits nullable.splits)

lemma useAttribution_deps:
  "updateAttribution_deps (fst (useAttribution st ma)) = Some (map_ref (fst ma), snd ma)"
  by (auto simp: attribution_hook_defs Let_def
      split: option.splits prod.splits if_splits nullable.splits)

lemma attribution_run_consistent:
  "attribution_consistent st \<Longrightarrow> attribution_consistent (fst (attribution_run st mas))"
proof (induction mas arbitrary: st)
  case Nil
  then show ?case by simp
next
  case (Cons ma mas)
  from Cons.IH [OF useAttribution_consistent [OF Cons.prems, of ma]] show ?case
    by (simp add: split_beta)
qed

lemma attribution_run_snoc:
  "attribution_run st (mas @ [ma])
     = (let (st1, t1) = attribution_run st mas; (st2, t2) = useAttribution st1 ma
        in (st2, t1 @ t2))"
  by (induction mas arbitrary: st) (auto simp: split_beta Let_def)

lemma attribution_init_consistent: "attribution_consistent attribution_init"
  by (simp add: attribution_consistent_def attribution_init_def)

lemma useAttribution_nullish_no_add:
  "\<not> not_nullish att \<Longrightarrow> filter is_addAttribution (snd (useAttribution st (m, att))) = []"
  by (cases att)
    (auto simp: attribution_hook_defs Let_def split: option.splits prod.splits nullable.splits)

text \<open>
  C7. A component instance starts in \<open>attribution_init\<close> and renders with the maps and
  attributions \<open>mas\<close>. When its last render had the attribution \<open>a\<close> and the next has a
  different attribution \<open>b\<close>, on a map whose attribution control exists, the calls of
  that render are exactly \<open>removeAttribution(a)\<close> and then \<open>addAttribution(b)\<close>. On a
  display where \<open>a\<close> is registered at most once and \<open>b\<close> is not registered, the two texts
  are not both displayed before or after either call. A render with a null or undefined
  attribution makes no \<open>addAttribution\<close> call, in any state of the slots.
\<close>

theorem useAttribution_swap:
  "(a \<noteq> b \<and> attributionControl m2 = Def ctl \<longrightarrow>
      snd (useAttribution (fst (attribution_run attribution_init (mas @ [(m1, Def a)])))
             (m2, Def b))
        = [RemoveAttribution ctl a, AddAttribution ctl b]) \<and>
   (a \<noteq> b \<and> reg a \<le> 1 \<and> reg b = 0 \<longrightarrow>
      never_both ctl a b reg [RemoveAttribution ctl a, AddAttribution ctl b]) \<and>
   (\<not> not_nullish att \<longrightarrow> filter is_addAttribution (snd (useAttribution st (m, att))) = [])"
proof -
  let ?st = "fst (attribution_run attribution_init (mas @ [(m1, Def a)]))"
  have c: "attribution_consistent ?st"
    by (rule attribution_run_consistent [OF attribution_init_consistent])
  have d: "updateAttribution_deps ?st = Some (map_ref m1, Def a)"
    by (simp add: attribution_run_snoc split_beta useAttribution_deps)
  have swap: "a \<noteq> b \<and> attributionControl m2 = Def ctl \<longrightarrow>
      snd (useAttribution ?st (m2, Def b)) = [RemoveAttribution ctl a, AddAttribution ctl b]"
    using c d by (auto simp: attribution_hook_defs attribution_consistent_def Let_def)
  have nb: "a \<noteq> b \<and> reg a \<le> 1 \<and> reg b = 0 \<longrightarrow>
      never_both ctl a b reg [RemoveAttribution ctl a, AddAttribution ctl b]"
    by auto
  from swap nb useAttribution_nullish_no_add [of att st m] show ?thesis by blast
qed

theorem useAttribution_swap_witness:
  "snd (useAttribution (fst (attribution_run attribution_init ([] @ [(sample_map, Def ''A'')])))
          (sample_map, Def ''B''))
     = [RemoveAttribution 8 ''A'', AddAttribution 8 ''B''] \<and>
   never_both 8 ''A'' ''B'' ((\<lambda>t. 0)(''A'' := 1))
     [RemoveAttribution 8 ''A'', AddAttribution 8 ''B''] \<and>
   filter is_addAttribution (snd (useAttribution attribution_init (sample_map, Null))) = []"
proof -
  have h1: "''A'' \<noteq> ''B'' \<and> attributionControl sample_map = Def 8"
    by (simp add: sample_map_def)
  have h2: "''A'' \<noteq> ''B'' \<and> ((\<lambda>t. 0)(''A'' := 1 :: nat)) ''A'' \<le> 1 \<and>
            ((\<lambda>t. 0)(''A'' := 1 :: nat)) ''B'' = 0"
    by simp
  have h3: "\<not> not_nullish (Null :: string nullable)"
    by simp
  from useAttribution_swap [of "''A''" "''B''" sample_map 8 "[]" sample_map
      "(\<lambda>t. 0)(''A'' := 1)" Null attribution_init sample_map] h1 h2 h3
  show ?thesis by blast
qed

section \<open>Properties of the control hook\<close>

lemma render_elementRef:
  "elementRef (fst (createElementHook_render createElement u es props cx))
     = Some (case elementRef es of None \<Rightarrow> createElement props cx | Some el \<Rightarrow> el)"
  by (simp add: createElementHook_render_def useImmutableLeafletElement_def
      useMutableLeafletElement_def Let_def split: option.splits)

lemma render_creates:
  "filter is_create (snd (createElementHook_render createElement u es props cx))
     = (case elementRef es of None \<Rightarrow> [CreateElement props cx] | Some _ \<Rightarrow> [])"
  by (simp add: createElementHook_render_def useImmutableLeafletElement_def
      useMutableLeafletElement_def Let_def split: option.splits)

lemma commit_elementRef:
  "elementRef (fst (createElementHook_commit u es props cx)) = elementRef es"
  by (simp add: createElementHook_commit_def useMutableLeafletElement_commit_def
      updateElementProps_def Let_def split: option.splits)

lemma commit_creates:
  "filter is_create (snd (createElementHook_commit u es props cx)) = []"
  by (simp add: createElementHook_commit_def useMutableLeafletElement_commit_def
      updateElementProps_def Let_def split: option.splits)

lemma filter_setPosition_ElementCall: "filter is_setPosition (map ElementCall t) = []"
  by (induction t) auto

lemma filter_create_ElementCall:
  "filter is_control_create (map ElementCall t) = map ElementCall (filter is_create t)"
  by (induction t) auto

lemma control_render_Inr:
  "useLeafletControl_render createElement u st props (Some cx)
     = Inr (st\<lparr>element_slots := fst (createElementHook_render createElement u (element_slots st) props cx),
              positionRef := (case positionRef st of None \<Rightarrow> Some (position props) | Some r \<Rightarrow> Some r)\<rparr>,
            el_instance (case elementRef (element_slots st) of
                           None \<Rightarrow> createElement props cx | Some el \<Rightarrow> el),
            cx,
            snd (createElementHook_render createElement u (element_slots st) props cx))"
  using render_elementRef [of createElement u "element_slots st" props cx]
  by (simp add: useLeafletControl_render_def useLeafletContext_def split_beta Let_def)

lemma control_render_None:
  "useLeafletControl_render createElement u st props None = Inl NoContextProvided"
  by (simp add: useLeafletControl_render_def useLeafletContext_def)

lemmas control_commit_defs =
  useLeafletControl_commit_def run_removeControl_def addControl_def updateControl_def

lemma control_commit_elementRef:
  "elementRef (element_slots (fst (useLeafletControl_commit u st inst props cx)))
     = elementRef (element_slots st)"
  by (simp add: control_commit_defs split_beta Let_def commit_elementRef
      split: option.splits nullable.splits)

lemma control_commit_creates:
  "filter is_control_create (snd (useLeafletControl_commit u st inst props cx)) = []"
  by (simp add: control_commit_defs split_beta Let_def filter_create_ElementCall commit_creates
      split: option.splits nullable.splits)

lemma control_commit_setPosition:
  "filter is_setPosition (snd (useLeafletControl_commit u st inst props cx))
     = (if deps_changed (updateControl_deps st) (inst, position props)
        then (case position props of
                Def v \<Rightarrow> if Some (Def v) \<noteq> positionRef st then [SetPosition inst v] else []
              | _ \<Rightarrow> [])
        else [])"
  by (simp add: control_commit_defs split_beta Let_def filter_setPosition_ElementCall
      split: option.splits nullable.splits)

lemma control_commit_deps:
  "updateControl_deps (fst (useLeafletControl_commit u st inst props cx))
     = Some (inst, position props)"
  by (simp add: control_commit_defs split_beta Let_def deps_changed_def
      split: option.splits nullable.splits)

lemma control_commit_positionRef:
  "positionRef (fst (useLeafletControl_commit u st inst props cx))
     = (if deps_changed (updateControl_deps st) (inst, position props)
        then (case position props of
                Def v \<Rightarrow> Some (Def v)
              | _ \<Rightarrow> positionRef st)
        else positionRef st)"
  by (simp add: control_commit_defs split_beta Let_def
      split: option.splits nullable.splits)


text \<open>A render with a context succeeds; these are its slots and its calls.\<close>

lemma useLeafletControl_Some:
  "useLeafletControl createElement u st (props, Some cx)
     = Inr (fst (useLeafletControl_commit u
                   (st\<lparr>element_slots := fst (createElementHook_render createElement u (element_slots st) props cx),
                       positionRef := (case positionRef st of None \<Rightarrow> Some (position props) | Some r \<Rightarrow> Some r)\<rparr>)
                   (el_instance (case elementRef (element_slots st) of
                                   None \<Rightarrow> createElement props cx | Some el \<Rightarrow> el))
                   props cx),
            map ElementCall (snd (createElementHook_render createElement u (element_slots st) props cx))
            @ snd (useLeafletControl_commit u
                   (st\<lparr>element_slots := fst (createElementHook_render createElement u (element_slots st) props cx),
                       positionRef := (case positionRef st of None \<Rightarrow> Some (position props) | Some r \<Rightarrow> Some r)\<rparr>)
                   (el_instance (case elementRef (element_slots st) of
                                   None \<Rightarrow> createElement props cx | Some el \<Rightarrow> el))
                   props cx))"
  by (simp add: useLeafletControl_def control_render_Inr split_beta)

lemma useLeafletControl_None:
  "useLeafletControl createElement u st (props, None) = Inl NoContextProvided"
  by (simp add: useLeafletControl_def control_render_None)

lemma useLeafletControl_Inr_provided:
  "useLeafletControl createElement u st (props, provided) = Inr (st', tr) \<Longrightarrow>
   \<exists>cx. provided = Some cx"
  by (cases provided) (simp_all add: useLeafletControl_None)

lemma useLeafletControl_elementRef:
  "useLeafletControl createElement u st (props, Some cx) = Inr (st', tr) \<Longrightarrow>
   elementRef (element_slots st')
     = Some (case elementRef (element_slots st) of
               None \<Rightarrow> createElement props cx | Some el \<Rightarrow> el)"
  by (auto simp: useLeafletControl_Some control_commit_elementRef render_elementRef)

lemma useLeafletControl_creates:
  "useLeafletControl createElement u st (props, Some cx) = Inr (st', tr) \<Longrightarrow>
   filter is_control_create tr
     = (case elementRef (element_slots st) of
          None \<Rightarrow> [ElementCall (CreateElement props cx)] | Some _ \<Rightarrow> [])"
  by (auto simp: useLeafletControl_Some control_commit_creates render_creates
      filter_create_ElementCall split: option.splits)

lemma useLeafletControl_setPosition:
  "useLeafletControl createElement u st (props, Some cx) = Inr (st', tr) \<Longrightarrow>
   filter is_setPosition tr
     = (if deps_changed (updateControl_deps st)
             (el_instance (case elementRef (element_slots st) of
                None \<Rightarrow> createElement props cx | Some el \<Rightarrow> el), position props)
        then (case position props of
                Def v \<Rightarrow>
                  (case positionRef st of
                     None \<Rightarrow> []
                   | Some r \<Rightarrow>
                       if r \<noteq> Def v
                       then [SetPosition (el_instance (case elementRef (element_slots st) of
                              None \<Rightarrow> createElement props cx | Some el \<Rightarrow> el)) v]
                       else [])
              | _ \<Rightarrow> [])
        else [])"
  by (auto simp: useLeafletControl_Some control_commit_setPosition
      filter_setPosition_ElementCall split: option.splits nullable.splits)

lemma useLeafletControl_deps:
  "useLeafletControl createElement u st (props, Some cx) = Inr (st', tr) \<Longrightarrow>
   updateControl_deps st'
     = Some (el_instance (case elementRef (element_slots st) of
                None \<Rightarrow> createElement props cx | Some el \<Rightarrow> el), position props)"
  by (auto simp: useLeafletControl_Some control_commit_deps)

lemma useLeafletControl_positionRef:
  "useLeafletControl createElement u st (props, Some cx) = Inr (st', tr) \<Longrightarrow>
   positionRef st'
     = (if deps_changed (updateControl_deps st)
             (el_instance (case elementRef (element_slots st) of
                None \<Rightarrow> createElement props cx | Some el \<Rightarrow> el), position props)
        then (case position props of
                Def v \<Rightarrow> Some (Def v)
              | _ \<Rightarrow> (case positionRef st of None \<Rightarrow> Some (position props) | Some r \<Rightarrow> Some r))
        else (case positionRef st of None \<Rightarrow> Some (position props) | Some r \<Rightarrow> Some r))"
  by (auto simp: useLeafletControl_Some control_commit_positionRef
      split: option.splits nullable.splits)

lemma useLeafletControl_only_when:
  assumes "useLeafletControl createElement u st (props, provided) = Inr (st', tr)"
    and "SetPosition i v \<in> set tr"
  shows "position props = Def v \<and> (\<exists>r. positionRef st = Some r \<and> r \<noteq> Def v) \<and>
         positionRef st' = Some (Def v)"
proof -
  from useLeafletControl_Inr_provided [OF assms(1)] obtain cx where p: "provided = Some cx" ..
  note a = assms(1) [unfolded p]
  define inst where "inst = el_instance (case elementRef (element_slots st) of
                None \<Rightarrow> createElement props cx | Some el \<Rightarrow> el)"
  note f = useLeafletControl_setPosition [OF a, folded inst_def]
  note r = useLeafletControl_positionRef [OF a, folded inst_def]
  have m: "SetPosition i v \<in> set (filter is_setPosition tr)"
    using assms(2) by simp
  show ?thesis
  proof (cases "deps_changed (updateControl_deps st) (inst, position props)")
    case False
    with f have "filter is_setPosition tr = []" by simp
    with m show ?thesis by simp
  next
    case True
    note ch = True
    show ?thesis
    proof (cases "position props")
      case Undefined
      with f ch have "filter is_setPosition tr = []" by simp
      with m show ?thesis by simp
    next
      case Null
      with f ch have "filter is_setPosition tr = []" by simp
      with m show ?thesis by simp
    next
      case (Def w)
      note pw = Def
      show ?thesis
      proof (cases "positionRef st")
        case None
        with f ch pw have "filter is_setPosition tr = []" by simp
        with m show ?thesis by simp
      next
        case (Some q)
        show ?thesis
        proof (cases "q = Def w")
          case True
          with f ch pw Some have "filter is_setPosition tr = []" by simp
          with m show ?thesis by simp
        next
          case False
          with f ch pw Some have "filter is_setPosition tr = [SetPosition inst w]" by simp
          with m have "v = w" by simp
          with r ch pw Some False show ?thesis by simp
        qed
      qed
    qed
  qed
qed

lemma useLeafletControl_same_position_twice:
  assumes "useLeafletControl createElement u st (p1, c1) = Inr (st1, t1)"
    and "useLeafletControl createElement u st1 (p2, c2) = Inr (st2, t2)"
    and "position p1 = position p2"
  shows "filter is_setPosition t2 = [] \<and> length (filter is_setPosition (t1 @ t2)) \<le> 1"
proof -
  from useLeafletControl_Inr_provided [OF assms(1)] obtain x1 where p1: "c1 = Some x1" ..
  from useLeafletControl_Inr_provided [OF assms(2)] obtain x2 where p2: "c2 = Some x2" ..
  note a = assms(1) [unfolded p1]
  note b = assms(2) [unfolded p2]
  from useLeafletControl_elementRef [OF a] obtain el where e: "elementRef (element_slots st1) = Some el"
    by simp
  from useLeafletControl_deps [OF a] useLeafletControl_elementRef [OF a] e
  have d: "updateControl_deps st1 = Some (el_instance el, position p1)" by simp
  have z: "filter is_setPosition t2 = []"
    using useLeafletControl_setPosition [OF b] e d assms(3)
    by (simp add: deps_changed_def)
  have "length (filter is_setPosition t1) \<le> 1"
    using useLeafletControl_setPosition [OF a]
    by (simp split: nullable.splits option.splits)
  with z show ?thesis by simp
qed

lemma control_run_mounted:
  "control_run createElement u st pcs = Inr (st', tr) \<Longrightarrow>
   elementRef (element_slots st) = Some el \<Longrightarrow>
   elementRef (element_slots st') = Some el \<and> filter is_control_create tr = []"
proof (induction pcs arbitrary: st tr)
  case Nil
  then show ?case by simp
next
  case (Cons pc pcs)
  obtain props provided where pc: "pc = (props, provided)" by (cases pc)
  from Cons.prems(1) obtain st1 t1 where
    a: "useLeafletControl createElement u st (props, provided) = Inr (st1, t1)"
    unfolding pc by (auto split: sum.splits)
  from Cons.prems(1) a obtain t2 where
    b: "control_run createElement u st1 pcs = Inr (st', t2)" and t: "tr = t1 @ t2"
    unfolding pc by (auto split: sum.splits)
  from useLeafletControl_Inr_provided [OF a] obtain cx where p: "provided = Some cx" ..
  note a' = a [unfolded p]
  from useLeafletControl_elementRef [OF a'] Cons.prems(2)
  have e1: "elementRef (element_slots st1) = Some el" by simp
  from useLeafletControl_creates [OF a'] Cons.prems(2)
  have c1: "filter is_control_create t1 = []" by simp
  from Cons.IH [OF b e1] c1 t show ?case by simp
qed

lemma control_run_creates_once:
  assumes "control_run createElement u control_init ((p, provided) # pcs) = Inr (st, tr)"
  shows "\<exists>cx. provided = Some cx \<and>
           filter is_control_create tr = [ElementCall (CreateElement p cx)] \<and>
           elementRef (element_slots st) = Some (createElement p cx)"
proof -
  from assms obtain st1 t1 where
    a: "useLeafletControl createElement u control_init (p, provided) = Inr (st1, t1)"
    by (auto split: sum.splits)
  from assms a obtain t2 where
    b: "control_run createElement u st1 pcs = Inr (st, t2)" and t: "tr = t1 @ t2"
    by (auto split: sum.splits)
  from useLeafletControl_Inr_provided [OF a] obtain cx where p: "provided = Some cx" ..
  note a' = a [unfolded p]
  from useLeafletControl_elementRef [OF a']
  have e1: "elementRef (element_slots st1) = Some (createElement p cx)"
    by (simp add: control_init_def element_init_def)
  from useLeafletControl_creates [OF a']
  have c1: "filter is_control_create t1 = [ElementCall (CreateElement p cx)]"
    by (simp add: control_init_def element_init_def)
  from control_run_mounted [OF b e1] c1 t p show ?thesis by simp
qed

lemma control_run_total:
  "\<forall>pc \<in> set pcs. snd pc \<noteq> None \<Longrightarrow> \<exists>st' tr. control_run createElement u st pcs = Inr (st', tr)"
proof (induction pcs arbitrary: st)
  case Nil
  then show ?case by simp
next
  case (Cons pc pcs)
  obtain props cx where pc: "pc = (props, Some cx)"
    using Cons.prems by (cases pc) auto
  obtain st1 t1 where a: "useLeafletControl createElement u st (props, Some cx) = Inr (st1, t1)"
    by (simp add: useLeafletControl_Some)
  from Cons.IH [of st1] Cons.prems obtain st2 t2 where
    b: "control_run createElement u st1 pcs = Inr (st2, t2)" by auto
  from a b pc show ?case by simp
qed

text \<open>
  C8. For the hook that \<open>createControlHook\<close> returns, over the element hook of
  \<open>createElementHook\<close>, with or without \<open>updateElement\<close>:
  a render calls \<open>setPosition(v)\<close> only when the position of its props is the non-null
  \<open>v\<close> and \<open>positionRef\<close> held another value before, and it leaves \<open>v\<close> in
  \<open>positionRef\<close>; of two renders in a row with the same position, the second makes no
  \<open>setPosition\<close> call and the two together make at most one; over all the renders of a
  component instance, whatever their positions, \<open>createElement\<close> is called once, in the
  first render, and the element is the one it returned; and the renders all succeed
  when each has a context.
\<close>

theorem createControlHook_position:
  "(useLeafletControl createElement u st (props, provided) = Inr (st', tr) \<and>
    SetPosition i v \<in> set tr \<longrightarrow>
      position props = Def v \<and> (\<exists>r. positionRef st = Some r \<and> r \<noteq> Def v) \<and>
      positionRef st' = Some (Def v)) \<and>
   (useLeafletControl createElement u st (props, provided) = Inr (st', tr) \<and>
    useLeafletControl createElement u st' (props2, provided2) = Inr (st2, tr2) \<and>
    position props = position props2 \<longrightarrow>
      filter is_setPosition tr2 = [] \<and> length (filter is_setPosition (tr @ tr2)) \<le> 1) \<and>
   (control_run createElement u control_init ((p, c) # pcs) = Inr (stn, trn) \<longrightarrow>
      (\<exists>cx. c = Some cx \<and>
         filter is_control_create trn = [ElementCall (CreateElement p cx)] \<and>
         elementRef (element_slots stn) = Some (createElement p cx))) \<and>
   (list_all (\<lambda>pc. snd pc \<noteq> None) pcs0 \<longrightarrow>
      (\<exists>s t. control_run createElement u st0 pcs0 = Inr (s, t)))"
proof -
  have a: "useLeafletControl createElement u st (props, provided) = Inr (st', tr) \<and>
    SetPosition i v \<in> set tr \<longrightarrow>
      position props = Def v \<and> (\<exists>r. positionRef st = Some r \<and> r \<noteq> Def v) \<and>
      positionRef st' = Some (Def v)"
    using useLeafletControl_only_when [of createElement u st props provided st' tr i v]
    by blast
  have b: "useLeafletControl createElement u st (props, provided) = Inr (st', tr) \<and>
    useLeafletControl createElement u st' (props2, provided2) = Inr (st2, tr2) \<and>
    position props = position props2 \<longrightarrow>
      filter is_setPosition tr2 = [] \<and> length (filter is_setPosition (tr @ tr2)) \<le> 1"
    using useLeafletControl_same_position_twice
      [of createElement u st props provided st' tr props2 provided2 st2 tr2]
    by blast
  have c: "control_run createElement u control_init ((p, c) # pcs) = Inr (stn, trn) \<longrightarrow>
      (\<exists>cx. c = Some cx \<and>
         filter is_control_create trn = [ElementCall (CreateElement p cx)] \<and>
         elementRef (element_slots stn) = Some (createElement p cx))"
    using control_run_creates_once [of createElement u p c pcs stn trn] by blast
  have d: "list_all (\<lambda>pc. snd pc \<noteq> None) pcs0 \<longrightarrow>
      (\<exists>s t. control_run createElement u st0 pcs0 = Inr (s, t))"
    using control_run_total [of pcs0 createElement u st0] by (simp add: list_all_iff)
  from a b c d show ?thesis by blast
qed

lemmas sample_control_defs =
  useLeafletControl_def useLeafletControl_render_def useLeafletControl_commit_def
  useLeafletContext_def updateControl_def addControl_def run_removeControl_def
  createElementHook_render_def createElementHook_commit_def useImmutableLeafletElement_def
  deps_changed_def control_init_def element_init_def
  sample_createControl_def sample_props_def sample_control_state_def sample_context_def
  createElementObject_def

lemma sample_control_mount:
  "useLeafletControl sample_createControl False control_init
     (sample_props 11 ''topleft'', Some sample_context)
   = Inr (sample_control_state ''topleft'',
          [ElementCall (CreateElement (sample_props 11 ''topleft'') sample_context),
           AddTo 10 3])"
  by (simp add: sample_control_defs)

lemma sample_control_move:
  "useLeafletControl sample_createControl False (sample_control_state ''topleft'')
     (sample_props 12 ''topright'', Some sample_context)
   = Inr (sample_control_state ''topright'', [SetPosition 10 ''topright''])"
  by (simp add: sample_control_defs)

lemma sample_control_same:
  "useLeafletControl sample_createControl False (sample_control_state ''topright'')
     (sample_props 13 ''topright'', Some sample_context)
   = Inr (sample_control_state ''topright'', [])"
  by (simp add: sample_control_defs)

lemma sample_control_run:
  "control_run sample_createControl False control_init
     [(sample_props 11 ''topleft'', Some sample_context),
      (sample_props 12 ''topright'', Some sample_context),
      (sample_props 13 ''topright'', Some sample_context)]
   = Inr (sample_control_state ''topright'',
          [ElementCall (CreateElement (sample_props 11 ''topleft'') sample_context),
           AddTo 10 3, SetPosition 10 ''topright''])"
  by (simp add: sample_control_mount sample_control_move sample_control_same)

theorem createControlHook_position_witness:
  "(position (sample_props 12 ''topright'') = Def ''topright'' \<and>
    (\<exists>r. positionRef (sample_control_state ''topleft'') = Some r \<and> r \<noteq> Def ''topright'') \<and>
    positionRef (sample_control_state ''topright'') = Some (Def ''topright'')) \<and>
   (filter is_setPosition ([] :: (nat, control_options) control_call list) = [] \<and>
    length (filter is_setPosition
      (([SetPosition 10 ''topright''] :: (nat, control_options) control_call list) @ [])) \<le> 1) \<and>
   (\<exists>cx. Some sample_context = Some cx \<and>
      filter is_control_create
        ([ElementCall (CreateElement (sample_props 11 ''topleft'') sample_context),
          AddTo 10 3, SetPosition 10 ''topright''] :: (nat, control_options) control_call list)
        = [ElementCall (CreateElement (sample_props 11 ''topleft'') cx)] \<and>
      elementRef (element_slots (sample_control_state ''topright''))
        = Some (sample_createControl (sample_props 11 ''topleft'') cx)) \<and>
   (\<exists>s t. control_run sample_createControl False control_init
      [(sample_props 11 ''topleft'', Some sample_context),
       (sample_props 12 ''topright'', Some sample_context),
       (sample_props 13 ''topright'', Some sample_context)] = Inr (s, t))"
proof -
  note t = createControlHook_position
    [where createElement = sample_createControl and u = False
       and st = "sample_control_state ''topleft''" and props = "sample_props 12 ''topright''"
       and provided = "Some sample_context" and st' = "sample_control_state ''topright''"
       and tr = "[SetPosition 10 ''topright'']" and i = 10 and v = "''topright''"
       and ?props2.0 = "sample_props 13 ''topright''" and ?provided2.0 = "Some sample_context"
       and ?st2.0 = "sample_control_state ''topright''" and ?tr2.0 = "[]"
       and p = "sample_props 11 ''topleft''" and c = "Some sample_context"
       and pcs = "[(sample_props 12 ''topright'', Some sample_context),
                   (sample_props 13 ''topright'', Some sample_context)]"
       and stn = "sample_control_state ''topright''"
       and trn = "[ElementCall (CreateElement (sample_props 11 ''topleft'') sample_context),
                   AddTo 10 3, SetPosition 10 ''topright'']"
       and ?st0.0 = control_init
       and ?pcs0.0 = "[(sample_props 11 ''topleft'', Some sample_context),
                       (sample_props 12 ''topright'', Some sample_context),
                       (sample_props 13 ''topright'', Some sample_context)]"]
  have e: "position (sample_props 12 ''topright'') = position (sample_props 13 ''topright'')"
    by (simp add: sample_props_def)
  have a: "position (sample_props 12 ''topright'') = Def ''topright'' \<and>
      (\<exists>r. positionRef (sample_control_state ''topleft'') = Some r \<and> r \<noteq> Def ''topright'') \<and>
      positionRef (sample_control_state ''topright'') = Some (Def ''topright'')"
    by (rule mp [OF t [THEN conjunct1]]) (simp add: sample_control_move)
  have b: "filter is_setPosition ([] :: (nat, control_options) control_call list) = [] \<and>
      length (filter is_setPosition
        (([SetPosition 10 ''topright''] :: (nat, control_options) control_call list) @ [])) \<le> 1"
    by (rule mp [OF t [THEN conjunct2, THEN conjunct1]])
      (simp add: sample_control_move sample_control_same e)
  have c: "\<exists>cx. Some sample_context = Some cx \<and>
      filter is_control_create
        ([ElementCall (CreateElement (sample_props 11 ''topleft'') sample_context),
          AddTo 10 3, SetPosition 10 ''topright''] :: (nat, control_options) control_call list)
        = [ElementCall (CreateElement (sample_props 11 ''topleft'') cx)] \<and>
      elementRef (element_slots (sample_control_state ''topright''))
        = Some (sample_createControl (sample_props 11 ''topleft'') cx)"
    by (rule mp [OF t [THEN conjunct2, THEN conjunct2, THEN conjunct1]])
      (rule sample_control_run)
  have d: "\<exists>s t. control_run sample_createControl False control_init
      [(sample_props 11 ''topleft'', Some sample_context),
       (sample_props 12 ''topright'', Some sample_context),
       (sample_props 13 ''topright'', Some sample_context)] = Inr (s, t)"
    by (rule mp [OF t [THEN conjunct2, THEN conjunct2, THEN conjunct2]]) simp
  show ?thesis
    by (rule conjI [OF a conjI [OF b conjI [OF c d]]])
qed

section \<open>Properties of the pane component\<close>

lemma createPane_reserved:
  "pn \<in> set DEFAULT_PANES \<Longrightarrow> createPane fresh pn props cx world = Inl (ReservedPaneName pn)"
  by (simp add: createPane_def)

lemma createPane_exists:
  "pn \<notin> set DEFAULT_PANES \<Longrightarrow> getPane (world (ctx_map cx)) pn = Inr (Def node) \<Longrightarrow>
   createPane fresh pn props cx world = Inl (PaneExists pn)"
  by (simp add: createPane_def)

lemma createPane_Inr:
  assumes "createPane fresh pn props cx world = Inr (element, world1, calls)"
  shows "pn \<notin> set DEFAULT_PANES \<and> element = fresh \<and>
         (\<exists>ps. panes (world (ctx_map cx)) = Some ps \<and> ps pn = None \<and>
            world1 = world(ctx_map cx :=
              (if pn \<noteq> [] then (world (ctx_map cx))\<lparr>panes := Some (ps(pn \<mapsto> fresh))\<rparr>
               else world (ctx_map cx))))"
proof -
  from assms have r: "pn \<notin> set DEFAULT_PANES"
    by (auto simp: createPane_def split: if_splits)
  from assms r obtain ps where ps: "panes (world (ctx_map cx)) = Some ps"
    by (cases "panes (world (ctx_map cx))") (auto simp: createPane_def getPane_def)
  from assms r ps have n: "ps pn = None"
    by (cases "ps pn") (auto simp: createPane_def getPane_def)
  have g: "\<And>n. getPane (world (ctx_map cx)) n
      = Inr (case ps n of None \<Rightarrow> Undefined | Some node \<Rightarrow> Def node)"
    using ps by (simp add: getPane_def)
  from assms r ps n have "element = fresh \<and> world1 = world(ctx_map cx :=
              (if pn \<noteq> [] then (world (ctx_map cx))\<lparr>panes := Some (ps(pn \<mapsto> fresh))\<rparr>
               else world (ctx_map cx)))"
    by (cases "coalesce (p_pane props) (ctx_pane cx)")
      (auto simp: createPane_def g map_createPane_def Let_def split: if_splits)
  with r ps n show ?thesis by blast
qed

lemma createPane_succeeds:
  assumes "pn \<notin> set DEFAULT_PANES" and "panes (world (ctx_map cx)) = Some ps" and "ps pn = None"
  shows "\<exists>world1 calls. createPane fresh pn props cx world = Inr (fresh, world1, calls)"
proof -
  have g: "\<And>n. getPane (world (ctx_map cx)) n
      = Inr (case ps n of None \<Rightarrow> Undefined | Some node \<Rightarrow> Def node)"
    using assms(2) by (simp add: getPane_def)
  show ?thesis using assms
    by (cases "coalesce (p_pane props) (ctx_pane cx)")
      (auto simp: createPane_def g map_createPane_def Let_def)
qed

lemma PaneComponent_mount:
  assumes "PaneComponent fc fn pane_init props provided world = Inr (st1, world1, t1, out1)"
  shows "\<exists>cx. provided = Some cx \<and>
           createPane fn (p_name props) props cx world = Inr (fn, world1, t1) \<and>
           pane_mounted st1 (p_name props) cx fn \<and> out1 = RenderNull"
proof -
  from assms obtain cx where p: "provided = Some cx"
    by (cases provided) (auto simp: PaneComponent_def useLeafletContext_def)
  from assms p obtain element w c where
    c: "createPane fn (p_name props) props cx world = Inr (element, w, c)"
    by (cases "createPane fn (p_name props) props cx world")
      (auto simp: PaneComponent_def useLeafletContext_def pane_init_def deps_changed_def Let_def
        split: nullable.splits)
  from createPane_Inr [OF c] have e: "element = fn" by simp
  from assms p c e show ?thesis
    by (auto simp: PaneComponent_def useLeafletContext_def pane_init_def deps_changed_def Let_def
        pane_mounted_def split: nullable.splits)
qed

lemma PaneComponent_rerender:
  assumes "pane_mounted st pn cx0 node"
  shows "\<exists>st' out. PaneComponent fc fn st props (Some cx) world = Inr (st', world, [], out) \<and>
           pane_mounted st' pn cx0 node \<and> portal_into pn node out"
  using assms
  by (cases "p_children props"; cases "newContext_memo st")
    (auto simp: PaneComponent_def useLeafletContext_def deps_changed_def Let_def
      pane_mounted_def)

lemma pane_run_mounted:
  assumes "pane_mounted st pn cx0 node"
    and "list_all (\<lambda>r. snd (snd (snd r)) \<noteq> None) rs"
  shows "\<exists>st' outs. pane_run st world rs = Inr (st', world, [], outs) \<and>
           pane_mounted st' pn cx0 node \<and> list_all (portal_into pn node) outs"
  using assms
proof (induction rs arbitrary: st)
  case Nil
  then show ?case by simp
next
  case (Cons r rs)
  obtain fc fn props provided where r: "r = (fc, fn, props, provided)"
    by (cases r) auto
  from Cons.prems(2) r obtain cx where p: "provided = Some cx" by auto
  from PaneComponent_rerender [OF Cons.prems(1), of fc fn props cx world]
  obtain st1 out where
    a: "PaneComponent fc fn st props (Some cx) world = Inr (st1, world, [], out)"
    and m: "pane_mounted st1 pn cx0 node" and o: "portal_into pn node out" by blast
  from Cons.IH [OF m] Cons.prems(2) obtain st2 outs where
    b: "pane_run st1 world rs = Inr (st2, world, [], outs)"
    and m2: "pane_mounted st2 pn cx0 node" and os: "list_all (portal_into pn node) outs"
    by auto
  from a b m2 o os r p show ?case by simp
qed

lemma PaneComponent_unmount_mounted:
  assumes "pane_mounted st pn cx node" and "panes (world (ctx_map cx)) = Some ps"
  shows "PaneComponent_unmount st world
     = Inr (st\<lparr>removeCreatedPane := None\<rparr>,
            world(ctx_map cx := (world (ctx_map cx))
                    \<lparr>panes := Some (omitPane ps pn),
                     paneRenderers := omitPane (paneRenderers (world (ctx_map cx))) pn\<rparr>),
            (case ps pn of None \<Rightarrow> [] | Some n \<Rightarrow> [RemoveNode n]))"
  using assms
  by (cases "ps pn")
    (auto simp: PaneComponent_unmount_def pane_mounted_def getPane_def Let_def)

text \<open>
  C5. \<open>createPane\<close> throws for every name in \<open>DEFAULT_PANES\<close>, so for \<open>tilePane\<close>, and
  throws when the map already has a pane of that name. The unmount of a pane component
  that was mounted succeeds, and after it neither \<open>_panes\<close> nor \<open>_paneRenderers\<close> of the
  map has an entry for the name, so that \<open>createPane\<close> with the same name on the same
  map succeeds again.
\<close>

theorem createPane_names:
  "(rn \<in> set DEFAULT_PANES \<longrightarrow>
      createPane fresh rn props cx world = Inl (ReservedPaneName rn)) \<and>
   createPane fresh ''tilePane'' props cx world = Inl (ReservedPaneName ''tilePane'') \<and>
   (pn \<notin> set DEFAULT_PANES \<and> getPane (world (ctx_map cx)) pn = Inr (Def node) \<longrightarrow>
      createPane fresh pn props cx world = Inl (PaneExists pn)) \<and>
   (PaneComponent fc fn pane_init props0 provided world = Inr (st1, world1, t1, out1) \<longrightarrow>
      (\<exists>cx0 st2 world2 t2 ps.
         provided = Some cx0 \<and>
         PaneComponent_unmount st1 world1 = Inr (st2, world2, t2) \<and>
         panes (world2 (ctx_map cx0)) = Some ps \<and> ps (p_name props0) = None \<and>
         paneRenderers (world2 (ctx_map cx0)) (p_name props0) = None \<and>
         (\<forall>fresh2 props2 cx2. ctx_map cx2 = ctx_map cx0 \<longrightarrow>
            (\<exists>world3 t3. createPane fresh2 (p_name props0) props2 cx2 world2
               = Inr (fresh2, world3, t3)))))"
proof -
  have a: "rn \<in> set DEFAULT_PANES \<longrightarrow>
      createPane fresh rn props cx world = Inl (ReservedPaneName rn)"
    by (simp add: createPane_reserved)
  have b: "createPane fresh ''tilePane'' props cx world = Inl (ReservedPaneName ''tilePane'')"
    by (rule createPane_reserved) (simp add: DEFAULT_PANES_def)
  have c: "pn \<notin> set DEFAULT_PANES \<and> getPane (world (ctx_map cx)) pn = Inr (Def node) \<longrightarrow>
      createPane fresh pn props cx world = Inl (PaneExists pn)"
    using createPane_exists [of pn world cx node fresh props] by blast
  have d: "\<exists>cx0 st2 world2 t2 ps.
         provided = Some cx0 \<and>
         PaneComponent_unmount st1 world1 = Inr (st2, world2, t2) \<and>
         panes (world2 (ctx_map cx0)) = Some ps \<and> ps (p_name props0) = None \<and>
         paneRenderers (world2 (ctx_map cx0)) (p_name props0) = None \<and>
         (\<forall>fresh2 props2 cx2. ctx_map cx2 = ctx_map cx0 \<longrightarrow>
            (\<exists>world3 t3. createPane fresh2 (p_name props0) props2 cx2 world2
               = Inr (fresh2, world3, t3)))"
    if m: "PaneComponent fc fn pane_init props0 provided world = Inr (st1, world1, t1, out1)"
  proof -
    from PaneComponent_mount [OF m] obtain cx0 where
      p: "provided = Some cx0"
      and cr: "createPane fn (p_name props0) props0 cx0 world = Inr (fn, world1, t1)"
      and mo: "pane_mounted st1 (p_name props0) cx0 fn" by blast
    from createPane_Inr [OF cr] obtain ps0 where
      nr: "p_name props0 \<notin> set DEFAULT_PANES"
      and w1: "world1 = world(ctx_map cx0 :=
              (if p_name props0 \<noteq> []
               then (world (ctx_map cx0))\<lparr>panes := Some (ps0(p_name props0 \<mapsto> fn))\<rparr>
               else world (ctx_map cx0)))"
      and r0: "panes (world (ctx_map cx0)) = Some ps0" by blast
    from w1 r0 obtain ps1 where r1: "panes (world1 (ctx_map cx0)) = Some ps1"
      by (cases "p_name props0 = []") simp_all
    let ?w2 = "world1(ctx_map cx0 := (world1 (ctx_map cx0))
                    \<lparr>panes := Some (omitPane ps1 (p_name props0)),
                     paneRenderers := omitPane (paneRenderers (world1 (ctx_map cx0)))
                       (p_name props0)\<rparr>)"
    note u = PaneComponent_unmount_mounted [where world = world1, OF mo r1]
    have again: "\<exists>world3 t3. createPane fresh2 (p_name props0) props2 cx2 ?w2
               = Inr (fresh2, world3, t3)" if "ctx_map cx2 = ctx_map cx0" for fresh2 props2 cx2
      by (rule createPane_succeeds
          [where world = ?w2 and cx = cx2 and ps = "omitPane ps1 (p_name props0)", OF nr])
        (simp_all add: that omitPane_def)
    have ag: "\<forall>fresh2 props2 cx2. ctx_map cx2 = ctx_map cx0 \<longrightarrow>
            (\<exists>world3 t3. createPane fresh2 (p_name props0) props2 cx2 ?w2
               = Inr (fresh2, world3, t3))"
      using again by blast
    have r2: "panes (?w2 (ctx_map cx0)) = Some (omitPane ps1 (p_name props0))"
      by simp
    have n2: "omitPane ps1 (p_name props0) (p_name props0) = None"
      by (simp add: omitPane_def)
    have q2: "paneRenderers (?w2 (ctx_map cx0)) (p_name props0) = None"
      by (simp add: omitPane_def)
    from p u r2 n2 q2 ag show ?thesis by blast
  qed
  from a b c d show ?thesis by blast
qed

lemmas sample_pane_defs =
  PaneComponent_def createPane_def getPane_def map_createPane_def useLeafletContext_def
  deps_changed_def pane_init_def DEFAULT_PANES_def addClassName_def splitClassName_def
  sample_pane_props_def sample_context_def sample_world_def

lemma sample_pane_mount:
  "\<exists>st1 world1 t1 out1.
     PaneComponent 50 60 pane_init (sample_pane_props ''custom'') (Some sample_context)
       sample_world = Inr (st1, world1, t1, out1)"
  by (simp add: sample_pane_defs Let_def)

theorem createPane_names_witness:
  "createPane 60 ''tilePane'' (sample_pane_props ''tilePane'') sample_context sample_world
     = Inl (ReservedPaneName ''tilePane'') \<and>
   createPane 60 ''labels'' (sample_pane_props ''tilePane'') sample_context sample_world
     = Inl (PaneExists ''labels'') \<and>
   (\<exists>st1 world1 t1 out1.
      PaneComponent 50 60 pane_init (sample_pane_props ''custom'') (Some sample_context)
        sample_world = Inr (st1, world1, t1, out1) \<and>
      (\<exists>cx0 st2 world2 t2 ps.
         Some sample_context = Some cx0 \<and>
         PaneComponent_unmount st1 world1 = Inr (st2, world2, t2) \<and>
         panes (world2 (ctx_map cx0)) = Some ps \<and>
         ps (p_name (sample_pane_props ''custom'')) = None \<and>
         paneRenderers (world2 (ctx_map cx0)) (p_name (sample_pane_props ''custom'')) = None \<and>
         (\<forall>fresh2 props2 cx2. ctx_map cx2 = ctx_map cx0 \<longrightarrow>
            (\<exists>world3 t3.
               createPane fresh2 (p_name (sample_pane_props ''custom''))
                 (props2 :: unit pane_props) cx2 world2
               = Inr (fresh2, world3, t3)))))"
proof -
  from sample_pane_mount obtain st1 world1 t1 out1 where
    m: "PaneComponent 50 60 pane_init (sample_pane_props ''custom'') (Some sample_context)
          sample_world = Inr (st1, world1, t1, out1)"
    by blast
  note t = createPane_names
    [where rn = "''tilePane''" and fresh = 60 and props = "sample_pane_props ''tilePane''"
       and cx = sample_context and world = sample_world and pn = "''labels''" and node = 101
       and fc = 50 and fn = 60 and ?props0.0 = "sample_pane_props ''custom''"
       and provided = "Some sample_context" and ?st1.0 = st1 and ?world1.0 = world1
       and ?t1.0 = t1 and ?out1.0 = out1]
  have a: "createPane 60 ''tilePane'' (sample_pane_props ''tilePane'') sample_context sample_world
     = Inl (ReservedPaneName ''tilePane'')"
    by (rule mp [OF t [THEN conjunct1]]) (simp add: DEFAULT_PANES_def)
  have b: "createPane 60 ''labels'' (sample_pane_props ''tilePane'') sample_context sample_world
     = Inl (PaneExists ''labels'')"
    by (rule mp [OF t [THEN conjunct2, THEN conjunct2, THEN conjunct1]])
      (simp add: DEFAULT_PANES_def getPane_def sample_world_def)
  note c = mp [OF t [THEN conjunct2, THEN conjunct2, THEN conjunct2] m]
  show ?thesis
    by (rule conjI [OF a conjI [OF b]], (rule exI)+, rule conjI [OF m c])
qed

text \<open>
  C9. When a pane component has mounted with the props \<open>props0\<close>, the pane was created
  under the name of these props. Every later render, whatever the name in its props,
  creates no pane and leaves the maps and their pane registries as they are; the name
  in the slots and in the cleanup stays the first one; every portal it renders provides
  a context whose pane is the first name; and the unmount removes the entries of the
  first name.
\<close>

theorem PaneComponent_name_fixed:
  "PaneComponent fc fn pane_init props0 provided world = Inr (st1, world1, t1, out1) \<and>
   list_all (\<lambda>r. snd (snd (snd r)) \<noteq> None) rs \<longrightarrow>
     (\<exists>cx0 st2 outs.
        provided = Some cx0 \<and>
        createPane fn (p_name props0) props0 cx0 world = Inr (fn, world1, t1) \<and>
        pane_run st1 world1 rs = Inr (st2, world1, [], outs) \<and>
        paneName st2 = Some (p_name props0) \<and>
        removeCreatedPane st2 = Some (cx0, p_name props0) \<and>
        list_all (portal_into (p_name props0) fn) outs \<and>
        (\<forall>w ps. panes (w (ctx_map cx0)) = Some ps \<longrightarrow>
           PaneComponent_unmount st2 w
             = Inr (st2\<lparr>removeCreatedPane := None\<rparr>,
                    w(ctx_map cx0 := (w (ctx_map cx0))
                        \<lparr>panes := Some (omitPane ps (p_name props0)),
                         paneRenderers := omitPane (paneRenderers (w (ctx_map cx0)))
                           (p_name props0)\<rparr>),
                    (case ps (p_name props0) of None \<Rightarrow> [] | Some n \<Rightarrow> [RemoveNode n]))))"
proof (intro impI, elim conjE)
  assume m: "PaneComponent fc fn pane_init props0 provided world = Inr (st1, world1, t1, out1)"
    and l: "list_all (\<lambda>r. snd (snd (snd r)) \<noteq> None) rs"
  from PaneComponent_mount [OF m] obtain cx0 where
    p: "provided = Some cx0"
    and cr: "createPane fn (p_name props0) props0 cx0 world = Inr (fn, world1, t1)"
    and mo: "pane_mounted st1 (p_name props0) cx0 fn" by blast
  from pane_run_mounted [OF mo l, of world1] obtain st2 outs where
    r: "pane_run st1 world1 rs = Inr (st2, world1, [], outs)"
    and m2: "pane_mounted st2 (p_name props0) cx0 fn"
    and os: "list_all (portal_into (p_name props0) fn) outs" by blast
  from m2 have n: "paneName st2 = Some (p_name props0)"
    and c: "removeCreatedPane st2 = Some (cx0, p_name props0)"
    by (simp_all add: pane_mounted_def)
  have u: "\<forall>w ps. panes (w (ctx_map cx0)) = Some ps \<longrightarrow>
           PaneComponent_unmount st2 w
             = Inr (st2\<lparr>removeCreatedPane := None\<rparr>,
                    w(ctx_map cx0 := (w (ctx_map cx0))
                        \<lparr>panes := Some (omitPane ps (p_name props0)),
                         paneRenderers := omitPane (paneRenderers (w (ctx_map cx0)))
                           (p_name props0)\<rparr>),
                    (case ps (p_name props0) of None \<Rightarrow> [] | Some n \<Rightarrow> [RemoveNode n]))"
  proof (intro allI impI)
    fix w :: "nat \<Rightarrow> map_state" and ps
    assume "panes (w (ctx_map cx0)) = Some ps"
    then show "PaneComponent_unmount st2 w
             = Inr (st2\<lparr>removeCreatedPane := None\<rparr>,
                    w(ctx_map cx0 := (w (ctx_map cx0))
                        \<lparr>panes := Some (omitPane ps (p_name props0)),
                         paneRenderers := omitPane (paneRenderers (w (ctx_map cx0)))
                           (p_name props0)\<rparr>),
                    (case ps (p_name props0) of None \<Rightarrow> [] | Some n \<Rightarrow> [RemoveNode n]))"
      by (rule PaneComponent_unmount_mounted [where world = w, OF m2])
  qed
  from p cr r n c os u
  show "\<exists>cx0 st2 outs.
        provided = Some cx0 \<and>
        createPane fn (p_name props0) props0 cx0 world = Inr (fn, world1, t1) \<and>
        pane_run st1 world1 rs = Inr (st2, world1, [], outs) \<and>
        paneName st2 = Some (p_name props0) \<and>
        removeCreatedPane st2 = Some (cx0, p_name props0) \<and>
        list_all (portal_into (p_name props0) fn) outs \<and>
        (\<forall>w ps. panes (w (ctx_map cx0)) = Some ps \<longrightarrow>
           PaneComponent_unmount st2 w
             = Inr (st2\<lparr>removeCreatedPane := None\<rparr>,
                    w(ctx_map cx0 := (w (ctx_map cx0))
                        \<lparr>panes := Some (omitPane ps (p_name props0)),
                         paneRenderers := omitPane (paneRenderers (w (ctx_map cx0)))
                           (p_name props0)\<rparr>),
                    (case ps (p_name props0) of None \<Rightarrow> [] | Some n \<Rightarrow> [RemoveNode n])))"
    by blast
qed

theorem PaneComponent_name_fixed_witness:
  "\<exists>st1 world1 t1 out1.
     PaneComponent 50 60 pane_init (sample_pane_props ''custom'') (Some sample_context)
       sample_world = Inr (st1, world1, t1, out1) \<and>
     (\<exists>cx0 st2 outs.
        Some sample_context = Some cx0 \<and>
        createPane 60 (p_name (sample_pane_props ''custom'')) (sample_pane_props ''custom'')
          cx0 sample_world = Inr (60, world1, t1) \<and>
        pane_run st1 world1
          [(51, 61, sample_pane_props ''renamed'', Some sample_context),
           (52, 62, sample_pane_props ''tilePane'', Some sample_context)]
          = Inr (st2, world1, [], outs) \<and>
        paneName st2 = Some (p_name (sample_pane_props ''custom'')) \<and>
        removeCreatedPane st2 = Some (cx0, p_name (sample_pane_props ''custom'')) \<and>
        list_all (portal_into (p_name (sample_pane_props ''custom'')) 60) outs \<and>
        (\<forall>w ps. panes (w (ctx_map cx0)) = Some ps \<longrightarrow>
           PaneComponent_unmount st2 w
             = Inr (st2\<lparr>removeCreatedPane := None\<rparr>,
                    w(ctx_map cx0 := (w (ctx_map cx0))
                        \<lparr>panes := Some (omitPane ps (p_name (sample_pane_props ''custom''))),
                         paneRenderers := omitPane (paneRenderers (w (ctx_map cx0)))
                           (p_name (sample_pane_props ''custom''))\<rparr>),
                    (case ps (p_name (sample_pane_props ''custom'')) of
                       None \<Rightarrow> [] | Some n \<Rightarrow> [RemoveNode n]))))"
proof -
  from sample_pane_mount obtain st1 world1 t1 out1 where
    m: "PaneComponent 50 60 pane_init (sample_pane_props ''custom'') (Some sample_context)
          sample_world = Inr (st1, world1, t1, out1)"
    by blast
  have l: "list_all (\<lambda>r. snd (snd (snd r)) \<noteq> None)
      [(51::nat, 61::nat, sample_pane_props ''renamed'', Some sample_context),
       (52, 62, sample_pane_props ''tilePane'', Some sample_context)]"
    by simp
  note c = mp [OF PaneComponent_name_fixed
    [where fc = 50 and fn = 60 and ?props0.0 = "sample_pane_props ''custom''"
       and provided = "Some sample_context" and world = sample_world
       and ?st1.0 = st1 and ?world1.0 = world1 and ?t1.0 = t1 and ?out1.0 = out1
       and rs = "[(51, 61, sample_pane_props ''renamed'', Some sample_context),
                  (52, 62, sample_pane_props ''tilePane'', Some sample_context)]"]
    conjI [OF m l]]
  show ?thesis
    by ((rule exI)+, rule conjI [OF m c])
qed

end
